theory Spec2Isabelle
  imports Complex_Main "HOL-Library.Char_ord" "HOL-Library.List_Lexorder"
begin

section \<open>Data model\<close>

text \<open>
  One row of the tabular dataset, with the column names of \<^verbatim>\<open>generate_data.py\<close>.
  Python floats are modelled as reals (rounding is abstracted away), the identifier and
  the three presence columns as integers, the habitat label as a string.
\<close>

record observation =
  observation_id :: int
  water_body_type :: string
  salinity_ppt :: real
  pH :: real
  temperature_C :: real
  dissolved_oxygen_mg_L :: real
  RGS_present :: int
  RES_present :: int
  PH_present :: int

type_synonym dataset = "observation list"

text \<open>The exceptions the modelled code can raise.\<close>

datatype error = ValueError | KeyError

section \<open>The pseudo-random generator\<close>

text \<open>
  \<^verbatim>\<open>np.random\<close> is a global generator outside the repository. It is taken as a
  parameter: a state type \<open>'s\<close>, the effect of \<^verbatim>\<open>np.random.seed(k)\<close> on the state,
  one draw of \<^verbatim>\<open>np.random.normal(loc, scale)\<close> and one draw of
  \<^verbatim>\<open>np.random.random()\<close>, each returning the value drawn and the next state.
\<close>

record 's prng =
  rng_seed :: "nat \<Rightarrow> 's \<Rightarrow> 's"
  rng_normal :: "real \<Rightarrow> real \<Rightarrow> 's \<Rightarrow> real \<times> 's"
  rng_random :: "'s \<Rightarrow> real \<times> 's"

text \<open>\<^verbatim>\<open>np.random.normal(loc, scale, size)\<close>: an array of \<open>size\<close> successive draws.\<close>

fun normal :: "'s prng \<Rightarrow> real \<Rightarrow> real \<Rightarrow> nat \<Rightarrow> 's \<Rightarrow> real list \<times> 's" where
  "normal g loc scale 0 s = ([], s)"
| "normal g loc scale (Suc n) s =
     (case rng_normal g loc scale s of (x, s1) \<Rightarrow>
        (case normal g loc scale n s1 of (xs, s2) \<Rightarrow> (x # xs, s2)))"

text \<open>\<^verbatim>\<open>np.clip(a, a_min, a_max)\<close> is \<^verbatim>\<open>minimum(maximum(a, a_min), a_max)\<close>, elementwise.\<close>

definition clip :: "real list \<Rightarrow> real \<Rightarrow> real \<Rightarrow> real list" where
  "clip a a_min a_max = map (\<lambda>x. min (max x a_min) a_max) a"

section \<open>generate\_data.py\<close>

definition water_types :: "string list" where
  "water_types = [''Clear spring fed pond'', ''vegetated pond'', ''Oxbow analog'']"

text \<open>The four \<^verbatim>\<open>np.random.normal\<close> calls of the branch chosen by the water type.\<close>

definition draw_environment ::
  "'s prng \<Rightarrow> string \<Rightarrow> nat \<Rightarrow> 's \<Rightarrow> (real list \<times> real list \<times> real list \<times> real list) \<times> 's" where
  "draw_environment g water_type n s =
     (if water_type = ''Clear spring fed pond'' then
        (case normal g 0.2 0.1 n s of (salinity, s1) \<Rightarrow>
         case normal g 7.4 0.3 n s1 of (ph, s2) \<Rightarrow>
         case normal g 12 3 n s2 of (temperature, s3) \<Rightarrow>
         case normal g 9.0 1.0 n s3 of (dissolved_oxygen, s4) \<Rightarrow>
           ((salinity, ph, temperature, dissolved_oxygen), s4))
      else if water_type = ''vegetated pond'' then
        (case normal g 0.6 0.4 n s of (salinity, s1) \<Rightarrow>
         case normal g 7.0 0.5 n s1 of (ph, s2) \<Rightarrow>
         case normal g 16 4 n s2 of (temperature, s3) \<Rightarrow>
         case normal g 7.5 1.5 n s3 of (dissolved_oxygen, s4) \<Rightarrow>
           ((salinity, ph, temperature, dissolved_oxygen), s4))
      else
        (case normal g 1.0 0.6 n s of (salinity, s1) \<Rightarrow>
         case normal g 7.8 0.6 n s1 of (ph, s2) \<Rightarrow>
         case normal g 17 4 n s2 of (temperature, s3) \<Rightarrow>
         case normal g 7.2 1.3 n s3 of (dissolved_oxygen, s4) \<Rightarrow>
           ((salinity, ph, temperature, dissolved_oxygen), s4)))"

definition rgs_prob :: "string \<Rightarrow> real" where
  "rgs_prob water_type =
     (if water_type = ''Clear spring fed pond'' then 0.85
      else (if water_type = ''Oxbow analog'' then 0.30 else 0.05))"

definition res_prob :: "string \<Rightarrow> real" where
  "res_prob water_type =
     (if water_type = ''Oxbow analog'' then 0.90
      else (if water_type = ''vegetated pond'' then 0.25 else 0.02))"

definition ph_prob :: "string \<Rightarrow> real" where
  "ph_prob water_type =
     (if water_type = ''vegetated pond'' then 0.85
      else (if water_type = ''Oxbow analog'' then 0.50 else 0.45))"

text \<open>
  One pass of the inner loop \<^verbatim>\<open>for i in range(n_habitat_samples)\<close>: three draws of
  \<^verbatim>\<open>np.random.random()\<close>, in the order RGS, RES, PH, and \<^verbatim>\<open>data.append(obs)\<close>.
  The loop state is the generator state and the list \<open>data\<close>.
\<close>

definition gen_observation ::
  "'s prng \<Rightarrow> string \<Rightarrow> real list \<Rightarrow> real list \<Rightarrow> real list \<Rightarrow> real list \<Rightarrow> nat
     \<Rightarrow> 's \<times> dataset \<Rightarrow> 's \<times> dataset" where
  "gen_observation g water_type salinity ph temperature dissolved_oxygen i st =
     (case st of (s, data) \<Rightarrow>
      case rng_random g s of (u1, s1) \<Rightarrow>
      case rng_random g s1 of (u2, s2) \<Rightarrow>
      case rng_random g s2 of (u3, s3) \<Rightarrow>
        (s3, data @
          [\<lparr>observation_id = int (length data) + 1,
            water_body_type = water_type,
            salinity_ppt = salinity ! i,
            pH = ph ! i,
            temperature_C = temperature ! i,
            dissolved_oxygen_mg_L = dissolved_oxygen ! i,
            RGS_present = (if u1 < rgs_prob water_type then 1 else 0),
            RES_present = (if u2 < res_prob water_type then 1 else 0),
            PH_present = (if u3 < ph_prob water_type then 1 else 0)\<rparr>]))"

text \<open>
  One pass of the outer loop \<^verbatim>\<open>for water_type in water_types\<close>.
  \<^verbatim>\<open>n_samples // 3\<close> is floor division, as \<open>div\<close> on \<open>int\<close>; a negative size makes
  the first \<^verbatim>\<open>np.random.normal\<close> raise \<^verbatim>\<open>ValueError\<close>. The indices of the inner loop
  are below the length of the four arrays, so \<open>!\<close> never reads out of range.
\<close>

definition gen_habitat ::
  "'s prng \<Rightarrow> int \<Rightarrow> string \<Rightarrow> 's \<times> dataset \<Rightarrow> error + ('s \<times> dataset)" where
  "gen_habitat g n_samples water_type st =
     (case st of (s, data) \<Rightarrow>
      let n_habitat_samples = n_samples div 3 in
      if n_habitat_samples < 0 then Inl ValueError
      else
        (case draw_environment g water_type (nat n_habitat_samples) s of
           ((salinity, ph, temperature, dissolved_oxygen), s') \<Rightarrow>
             Inr (fold (gen_observation g water_type
                          (clip salinity 0 40) (clip ph 6 9)
                          (clip temperature 0 35) (clip dissolved_oxygen 2 12))
                    [0..<nat n_habitat_samples] (s', data))))"

fun gen_loop :: "'s prng \<Rightarrow> int \<Rightarrow> string list \<Rightarrow> 's \<times> dataset \<Rightarrow> error + ('s \<times> dataset)" where
  "gen_loop g n_samples [] st = Inr st"
| "gen_loop g n_samples (water_type # rest) st =
     (case gen_habitat g n_samples water_type st of
        Inl e \<Rightarrow> Inl e
      | Inr st' \<Rightarrow> gen_loop g n_samples rest st')"

text \<open>
  \<^verbatim>\<open>generate_habitat_data(n_samples)\<close>, run from generator state \<open>s\<close>: the DataFrame
  returned (its rows, in order) and the generator state left behind.
\<close>

definition generate_habitat_data :: "'s prng \<Rightarrow> int \<Rightarrow> 's \<Rightarrow> error + (dataset \<times> 's)" where
  "generate_habitat_data g n_samples s =
     (case gen_loop g n_samples water_types (s, []) of
        Inl e \<Rightarrow> Inl e
      | Inr (s', data) \<Rightarrow> Inr (data, s'))"

text \<open>
  A run of the generation stage in a fresh process, whose global generator is in some
  state \<open>s0\<close>: importing the module executes \<^verbatim>\<open>np.random.seed(42)\<close>, and then
  \<^verbatim>\<open>generate_habitat_data\<close> is called once.
\<close>

definition generation_stage :: "'s prng \<Rightarrow> 's \<Rightarrow> int \<Rightarrow> error + dataset" where
  "generation_stage g s0 n_samples =
     (case generate_habitat_data g n_samples (rng_seed g 42 s0) of
        Inl e \<Rightarrow> Inl e
      | Inr (data, s') \<Rightarrow> Inr data)"

text \<open>
  A small deterministic generator used to run the definitions on concrete inputs: the
  state is a counter, which seeding sets to the seed; a normal draw returns
  \<open>loc + scale * (c mod 7 - 3)\<close> and a uniform draw returns \<open>(c mod 10) / 10\<close>.
\<close>

definition counter_prng :: "nat prng" where
  "counter_prng =
     \<lparr>rng_seed = (\<lambda>k c. k),
      rng_normal = (\<lambda>loc scale c. (loc + scale * (real (c mod 7) - 3), Suc c)),
      rng_random = (\<lambda>c. (real (c mod 10) / 10, Suc c))\<rparr>"

section \<open>analyze\_habitat.py\<close>

text \<open>
  The species codes of \<^verbatim>\<open>self.species = ['RGS', 'RES', 'PH']\<close>, and the column
  \<^verbatim>\<open>df[f'{species}_present']\<close> each of them selects.
\<close>

datatype species = RGS | RES | PH

definition species_list :: "species list" where
  "species_list = [RGS, RES, PH]"

fun present :: "species \<Rightarrow> observation \<Rightarrow> int" where
  "present RGS = RGS_present"
| "present RES = RES_present"
| "present PH = PH_present"

subsection \<open>Library functions used by the analyzer\<close>

text \<open>
  \<^verbatim>\<open>Series.unique()\<close> of pandas: the distinct values in order of first appearance.
  (\<open>remdups\<close> of the list library keeps the last occurrences instead.)
\<close>

fun unique :: "'a list \<Rightarrow> 'a list" where
  "unique [] = []"
| "unique (x # xs) = x # unique (filter (\<lambda>y. y \<noteq> x) xs)"

text \<open>
  \<^verbatim>\<open>pd.crosstab(index, columns)\<close>: one row per distinct value of \<open>index\<close> and one
  column per distinct value of \<open>columns\<close>, both sorted, each cell the number of
  positions holding that pair. A value that never occurs gets no row or column.
\<close>

record contingency_table =
  ct_index :: "string list"
  ct_columns :: "int list"
  ct_cells :: "int list list"

definition crosstab :: "string list \<Rightarrow> int list \<Rightarrow> contingency_table" where
  "crosstab idx cols =
     (let rs = sorted_list_of_set (set idx); cs = sorted_list_of_set (set cols)
      in \<lparr>ct_index = rs, ct_columns = cs,
          ct_cells = map (\<lambda>r. map (\<lambda>c. int (count_list (zip idx cols) (r, c))) cs) rs\<rparr>)"

text \<open>
  \<^verbatim>\<open>scipy.stats.chi2_contingency(observed)\<close> with its defaults (Pearson statistic,
  Yates' correction when there is one degree of freedom), on a two-dimensional table
  of shape \<open>(r, c)\<close>. The survival function of the chi-square distribution,
  \<^verbatim>\<open>chi2.sf\<close>, is a parameter. The expected frequencies are the products of the
  marginal sums over the total. scipy's later comparison of the two totals up to a
  relative tolerance guards against floating-point drift only: in exact arithmetic the
  totals are equal, so it is not part of the model.
\<close>

definition row_sums :: "int list list \<Rightarrow> int list" where
  "row_sums m = map sum_list m"

definition col_sums :: "nat \<Rightarrow> int list list \<Rightarrow> int list" where
  "col_sums c m = map (\<lambda>j. sum_list (map (\<lambda>row. row ! j) m)) [0..<c]"

definition expected_freq :: "nat \<Rightarrow> int list list \<Rightarrow> real list list" where
  "expected_freq c m =
     map (\<lambda>ri. map (\<lambda>cj. real_of_int (ri * cj) / real_of_int (sum_list (row_sums m)))
                 (col_sums c m))
         (row_sums m)"

definition yates :: "real \<Rightarrow> real \<Rightarrow> real" where
  "yates obs ex = (let diff = ex - obs in obs + min (1 / 2) \<bar>diff\<bar> * sgn diff)"

definition pearson :: "real list list \<Rightarrow> real list list \<Rightarrow> real" where
  "pearson f_obs f_exp =
     sum_list (concat (map2 (map2 (\<lambda>ob ex. (ob - ex)\<^sup>2 / ex)) f_obs f_exp))"

definition chi2_contingency ::
  "(real \<Rightarrow> int \<Rightarrow> real) \<Rightarrow> contingency_table \<Rightarrow> error + (real \<times> real \<times> int \<times> real list list)" where
  "chi2_contingency chi2_sf tab =
     (let observed = ct_cells tab; r = length (ct_index tab); c = length (ct_columns tab) in
      if list_ex (list_ex (\<lambda>x. x < 0)) observed then Inl ValueError
      else if r * c = 0 then Inl ValueError
      else
        let expected = expected_freq c observed in
        if list_ex (list_ex (\<lambda>x. x = 0)) expected then Inl ValueError
        else
          let dof = int (r * c) - int (r + c) + 2 - 1 in
          if dof = 0 then Inr (0, 1, dof, expected)
          else
            let f_obs = (if dof = 1 then map2 (map2 yates) (map (map real_of_int) observed) expected
                         else map (map real_of_int) observed);
                chi2 = pearson f_obs expected
            in Inr (chi2, chi2_sf chi2 dof, dof, expected))"

text \<open>
  \<^verbatim>\<open>Series.mean()\<close> and \<^verbatim>\<open>Series.std()\<close> of pandas on a column without missing
  values; \<open>None\<close> stands for NaN. \<^verbatim>\<open>std\<close> has \<^verbatim>\<open>ddof=1\<close> by default and follows
  pandas' \<^verbatim>\<open>nanvar\<close>: \<open>d = count - ddof\<close>, NaN when \<open>count \<le> ddof\<close>, otherwise the
  square root of the sum of squared deviations from the average over \<open>d\<close>.
\<close>

definition series_mean :: "real list \<Rightarrow> real option" where
  "series_mean values = (if values = [] then None
                         else Some (sum_list values / real (length values)))"

definition series_std :: "real list \<Rightarrow> real option" where
  "series_std values =
     (let ddof = 1; count = length values in
      if count \<le> ddof then None
      else
        let avg = sum_list values / real count;
            sqr = map (\<lambda>v. (avg - v)\<^sup>2) values
        in Some (sqrt (sum_list sqr / real (count - ddof))))"

text \<open>
  Python's \<^verbatim>\<open>max(iterable, key=f)\<close>: \<^verbatim>\<open>ValueError\<close> on an empty sequence; otherwise
  the running maximum is replaced only by an item whose key is strictly greater.
\<close>

fun py_max :: "('a \<Rightarrow> real) \<Rightarrow> 'a list \<Rightarrow> error + 'a" where
  "py_max key [] = Inl ValueError"
| "py_max key (x # xs) = Inr (fold (\<lambda>item best. if key item > key best then item else best) xs x)"

subsection \<open>The analysis object\<close>

record chi2_result =
  chi2_table :: contingency_table
  chi2_statistic :: real
  p_value :: real
  degrees_of_freedom :: int
  significant :: bool

record occurrence =
  occ_species :: species
  occ_water_body_type :: string
  occurrences :: int
  n_observations :: nat
  occurrence_rate :: real

record habitat_stats =
  salinity_mean :: "real option"
  salinity_std :: "real option"
  pH_mean :: "real option"
  pH_std :: "real option"
  temperature_mean :: "real option"
  temperature_std :: "real option"
  dissolved_oxygen_mean :: "real option"
  dissolved_oxygen_std :: "real option"

record preference =
  preferred_habitat :: string
  preference_rate :: real

text \<open>
  \<^verbatim>\<open>HabitatPreferenceAnalysis\<close>: the DataFrame and the dictionary \<^verbatim>\<open>self.results\<close>,
  one optional slot per key (\<open>None\<close>: the key is absent). The inner dictionaries are
  association lists in insertion order.
\<close>

record analysis =
  df :: dataset
  res_contingency_analysis :: "(species \<times> chi2_result) list option"
  res_occurrence_rates :: "occurrence list option"
  res_habitat_characteristics :: "(string \<times> habitat_stats) list option"
  res_summary :: "(species \<times> preference) list option"

definition init_analysis :: "dataset \<Rightarrow> analysis" where
  "init_analysis d =
     \<lparr>df = d, res_contingency_analysis = None, res_occurrence_rates = None,
      res_habitat_characteristics = None, res_summary = None\<rparr>"

definition contingency_species :: "(real \<Rightarrow> int \<Rightarrow> real) \<Rightarrow> dataset \<Rightarrow> species \<Rightarrow> error + chi2_result" where
  "contingency_species chi2_sf d sp =
     (let contingency = crosstab (map water_body_type d) (map (present sp) d) in
      case chi2_contingency chi2_sf contingency of
        Inl e \<Rightarrow> Inl e
      | Inr (chi2, p, dof, expected) \<Rightarrow>
          Inr \<lparr>chi2_table = contingency, chi2_statistic = chi2, p_value = p,
               degrees_of_freedom = dof, significant = (p < 0.05)\<rparr>)"

fun contingency_loop ::
  "(real \<Rightarrow> int \<Rightarrow> real) \<Rightarrow> dataset \<Rightarrow> species list \<Rightarrow> (species \<times> chi2_result) list
     \<Rightarrow> error + (species \<times> chi2_result) list" where
  "contingency_loop chi2_sf d [] contingency_results = Inr contingency_results"
| "contingency_loop chi2_sf d (sp # rest) contingency_results =
     (case contingency_species chi2_sf d sp of
        Inl e \<Rightarrow> Inl e
      | Inr res \<Rightarrow> contingency_loop chi2_sf d rest (contingency_results @ [(sp, res)]))"

definition contingency_analysis ::
  "(real \<Rightarrow> int \<Rightarrow> real) \<Rightarrow> analysis \<Rightarrow> error + ((species \<times> chi2_result) list \<times> analysis)" where
  "contingency_analysis chi2_sf a =
     (case contingency_loop chi2_sf (df a) species_list [] of
        Inl e \<Rightarrow> Inl e
      | Inr contingency_results \<Rightarrow>
          Inr (contingency_results, a\<lparr>res_contingency_analysis := Some contingency_results\<rparr>))"

definition habitat_subset :: "dataset \<Rightarrow> string \<Rightarrow> dataset" where
  "habitat_subset d water_type = filter (\<lambda>row. water_body_type row = water_type) d"

definition occurrence_entry :: "dataset \<Rightarrow> string \<Rightarrow> species \<Rightarrow> occurrence" where
  "occurrence_entry d water_type sp =
     (let subset = habitat_subset d water_type;
          n = length subset;
          occ = sum_list (map (present sp) subset);
          rate = (real_of_int occ / real n) * 100
      in \<lparr>occ_species = sp, occ_water_body_type = water_type, occurrences = occ,
          n_observations = n, occurrence_rate = rate\<rparr>)"

definition occurrence_data :: "dataset \<Rightarrow> occurrence list" where
  "occurrence_data d =
     concat (map (\<lambda>water_type. map (occurrence_entry d water_type) species_list)
                 (unique (map water_body_type d)))"

definition calculate_occurrence_rates :: "analysis \<Rightarrow> occurrence list \<times> analysis" where
  "calculate_occurrence_rates a =
     (let occurrence_df = occurrence_data (df a)
      in (occurrence_df, a\<lparr>res_occurrence_rates := Some occurrence_df\<rparr>))"

definition habitat_stats_entry :: "dataset \<Rightarrow> string \<Rightarrow> habitat_stats" where
  "habitat_stats_entry d water_type =
     (let subset = habitat_subset d water_type
      in \<lparr>salinity_mean = series_mean (map salinity_ppt subset),
          salinity_std = series_std (map salinity_ppt subset),
          pH_mean = series_mean (map pH subset),
          pH_std = series_std (map pH subset),
          temperature_mean = series_mean (map temperature_C subset),
          temperature_std = series_std (map temperature_C subset),
          dissolved_oxygen_mean = series_mean (map dissolved_oxygen_mg_L subset),
          dissolved_oxygen_std = series_std (map dissolved_oxygen_mg_L subset)\<rparr>)"

definition habitat_similarity :: "analysis \<Rightarrow> (string \<times> habitat_stats) list \<times> analysis" where
  "habitat_similarity a =
     (let stats = map (\<lambda>water_type. (water_type, habitat_stats_entry (df a) water_type))
                      (unique (map water_body_type (df a)))
      in (stats, a\<lparr>res_habitat_characteristics := Some stats\<rparr>))"

definition summarize_species :: "occurrence list \<Rightarrow> species \<Rightarrow> error + preference" where
  "summarize_species occurrence_rates sp =
     (let species_data = filter (\<lambda>r. occ_species r = sp) occurrence_rates in
      case py_max occurrence_rate species_data of
        Inl e \<Rightarrow> Inl e
      | Inr preferred \<Rightarrow>
          Inr \<lparr>preferred_habitat = occ_water_body_type preferred,
               preference_rate = occurrence_rate preferred\<rparr>)"

fun summary_loop ::
  "occurrence list \<Rightarrow> species list \<Rightarrow> (species \<times> preference) list
     \<Rightarrow> error + (species \<times> preference) list" where
  "summary_loop occurrence_rates [] summary = Inr summary"
| "summary_loop occurrence_rates (sp # rest) summary =
     (case summarize_species occurrence_rates sp of
        Inl e \<Rightarrow> Inl e
      | Inr pref \<Rightarrow> summary_loop occurrence_rates rest (summary @ [(sp, pref)]))"

text \<open>
  \<^verbatim>\<open>summarize_findings\<close> reads \<^verbatim>\<open>self.results['occurrence_rates']\<close>: a
  \<^verbatim>\<open>KeyError\<close> when \<^verbatim>\<open>calculate_occurrence_rates\<close> has not run. (With the empty
  species list the key would not be read; the list is never empty.)
\<close>

definition summarize_findings :: "analysis \<Rightarrow> error + ((species \<times> preference) list \<times> analysis)" where
  "summarize_findings a =
     (case res_occurrence_rates a of
        None \<Rightarrow> Inl KeyError
      | Some occurrence_rates \<Rightarrow>
          (case summary_loop occurrence_rates species_list [] of
             Inl e \<Rightarrow> Inl e
           | Inr summary \<Rightarrow> Inr (summary, a\<lparr>res_summary := Some summary\<rparr>)))"

definition run_full_analysis :: "(real \<Rightarrow> int \<Rightarrow> real) \<Rightarrow> analysis \<Rightarrow> error + analysis" where
  "run_full_analysis chi2_sf a =
     (case contingency_analysis chi2_sf a of
        Inl e \<Rightarrow> Inl e
      | Inr (r1, a1) \<Rightarrow>
          (case calculate_occurrence_rates a1 of (r2, a2) \<Rightarrow>
            (case habitat_similarity a2 of (r3, a3) \<Rightarrow>
              (case summarize_findings a3 of
                 Inl e \<Rightarrow> Inl e
               | Inr (r4, a4) \<Rightarrow> Inr a4))))"

section \<open>visualize\_results.py\<close>

text \<open>
  \<^verbatim>\<open>HabitatVisualization\<close> keeps \<^verbatim>\<open>self.water_types = df['water_body_type'].unique()\<close>.
  The two plotting methods below compute their own rates; only the numbers handed to
  the plotting library are modelled.
\<close>

record bar_entry =
  bar_water_body_type :: string
  bar_species :: species
  bar_occurrence_rate :: real

definition viz_water_types :: "dataset \<Rightarrow> string list" where
  "viz_water_types d = unique (map water_body_type d)"

definition viz_rate :: "dataset \<Rightarrow> string \<Rightarrow> species \<Rightarrow> real" where
  "viz_rate d water_type sp =
     (let subset = filter (\<lambda>row. water_body_type row = water_type) d
      in (real_of_int (sum_list (map (present sp) subset)) / real (length subset)) * 100)"

definition plot_occurrence_by_habitat :: "dataset \<Rightarrow> bar_entry list" where
  "plot_occurrence_by_habitat d =
     concat (map (\<lambda>water_type.
                    map (\<lambda>sp. \<lparr>bar_water_body_type = water_type, bar_species = sp,
                                bar_occurrence_rate = viz_rate d water_type sp\<rparr>) species_list)
                 (viz_water_types d))"

definition plot_heatmap :: "dataset \<Rightarrow> real list list" where
  "plot_heatmap d =
     map (\<lambda>water_type. map (\<lambda>sp. viz_rate d water_type sp) species_list) (viz_water_types d)"

section \<open>Predicates and sample data used in the statements\<close>

text \<open>
  Two generators, possibly of two processes and of different state types, draw the same
  values: \<open>R\<close> relates their states, seeding both with the same seed gives related
  states whatever the states were before, and from related states a draw returns the
  same value and related states. This is what a fixed seed means for \<^verbatim>\<open>np.random\<close>.
\<close>

definition draws_agree :: "('s \<Rightarrow> 't \<Rightarrow> bool) \<Rightarrow> 's prng \<Rightarrow> 't prng \<Rightarrow> bool" where
  "draws_agree R g g' \<longleftrightarrow>
     (\<forall>k s s'. R (rng_seed g k s) (rng_seed g' k s')) \<and>
     (\<forall>loc scale s s'. R s s' \<longrightarrow>
        fst (rng_normal g loc scale s) = fst (rng_normal g' loc scale s') \<and>
        R (snd (rng_normal g loc scale s)) (snd (rng_normal g' loc scale s'))) \<and>
     (\<forall>s s'. R s s' \<longrightarrow>
        fst (rng_random g s) = fst (rng_random g' s') \<and>
        R (snd (rng_random g s)) (snd (rng_random g' s')))"

text \<open>The loop states of two runs: related generator states and the same rows so far.\<close>

definition same_rows :: "('s \<Rightarrow> 't \<Rightarrow> bool) \<Rightarrow> 's \<times> dataset \<Rightarrow> 't \<times> dataset \<Rightarrow> bool" where
  "same_rows R st st' \<longleftrightarrow> R (fst st) (fst st') \<and> snd st = snd st'"

text \<open>
  A second generator with the draws of the counter generator and another state: its
  counter runs 100 ahead.
\<close>

definition shifted_prng :: "nat prng" where
  "shifted_prng =
     \<lparr>rng_seed = (\<lambda>k c. k + 100),
      rng_normal = (\<lambda>loc scale c. (loc + scale * (real ((c - 100) mod 7) - 3), Suc c)),
      rng_random = (\<lambda>c. (real ((c - 100) mod 10) / 10, Suc c))\<rparr>"

text \<open>The clipping ranges of the generator and the two admissible presence values.\<close>

definition in_ranges :: "observation \<Rightarrow> bool" where
  "in_ranges r \<longleftrightarrow>
     0 \<le> salinity_ppt r \<and> salinity_ppt r \<le> 40 \<and>
     6 \<le> pH r \<and> pH r \<le> 9 \<and>
     0 \<le> temperature_C r \<and> temperature_C r \<le> 35 \<and>
     2 \<le> dissolved_oxygen_mg_L r \<and> dissolved_oxygen_mg_L r \<le> 12 \<and>
     (RGS_present r = 0 \<or> RGS_present r = 1) \<and>
     (RES_present r = 0 \<or> RES_present r = 1) \<and>
     (PH_present r = 0 \<or> PH_present r = 1)"

text \<open>A row whose measurements are taken from the four arrays of its habitat.\<close>

definition from_arrays ::
  "real list \<Rightarrow> real list \<Rightarrow> real list \<Rightarrow> real list \<Rightarrow> observation \<Rightarrow> bool" where
  "from_arrays sal ph t d r \<longleftrightarrow>
     salinity_ppt r \<in> set sal \<and> pH r \<in> set ph \<and> temperature_C r \<in> set t \<and>
     dissolved_oxygen_mg_L r \<in> set d \<and>
     (RGS_present r = 0 \<or> RGS_present r = 1) \<and>
     (RES_present r = 0 \<or> RES_present r = 1) \<and>
     (PH_present r = 0 \<or> PH_present r = 1)"

text \<open>The three rows \<^verbatim>\<open>generate_habitat_data(3)\<close> yields with the counter generator at state 42.\<close>

definition counter_run_3 :: dataset where
  "counter_run_3 =
     [\<lparr>observation_id = 1, water_body_type = ''Clear spring fed pond'',
       salinity_ppt = 0, pH = 34 / 5, temperature_C = 9,
       dissolved_oxygen_mg_L = 9, RGS_present = 1, RES_present = 0, PH_present = 0\<rparr>,
      \<lparr>observation_id = 2, water_body_type = ''vegetated pond'',
       salinity_ppt = 0, pH = 6, temperature_C = 12,
       dissolved_oxygen_mg_L = 15 / 2, RGS_present = 0, RES_present = 0, PH_present = 1\<rparr>,
      \<lparr>observation_id = 3, water_body_type = ''Oxbow analog'',
       salinity_ppt = 0, pH = 33 / 5, temperature_C = 13,
       dissolved_oxygen_mg_L = 36 / 5, RGS_present = 1, RES_present = 1, PH_present = 1\<rparr>]"

text \<open>The invariant of the data model: each presence indicator is 0 or 1.\<close>

definition binary_presence :: "observation \<Rightarrow> bool" where
  "binary_presence r \<longleftrightarrow>
     (RGS_present r = 0 \<or> RGS_present r = 1) \<and>
     (RES_present r = 0 \<or> RES_present r = 1) \<and>
     (PH_present r = 0 \<or> PH_present r = 1)"

text \<open>The number of rows in which a species is present.\<close>

definition presence_count :: "species \<Rightarrow> dataset \<Rightarrow> nat" where
  "presence_count sp rows = length (filter (\<lambda>row. present sp row = 1) rows)"

text \<open>
  Sample rows for running the analyzer: identifier, habitat and the three presence
  indicators vary, the temperature is the identifier, the other covariates are fixed.
\<close>

definition mk_row :: "int \<Rightarrow> string \<Rightarrow> int \<Rightarrow> int \<Rightarrow> int \<Rightarrow> observation" where
  "mk_row i w rgs res ph =
     \<lparr>observation_id = i, water_body_type = w, salinity_ppt = 1 / 2, pH = 7,
      temperature_C = real_of_int i, dissolved_oxygen_mg_L = 8,
      RGS_present = rgs, RES_present = res, PH_present = ph\<rparr>"

text \<open>
  Nine rows, three per habitat type, the habitats appearing in the order B, A, C. RGS is
  present in habitat A only; RES has the same rate in B and in A.
\<close>

definition sample_9 :: dataset where
  "sample_9 =
     [mk_row 1 ''B'' 0 1 1, mk_row 2 ''B'' 0 1 0, mk_row 3 ''B'' 0 0 1,
      mk_row 4 ''A'' 1 1 0, mk_row 5 ''A'' 1 1 1, mk_row 6 ''A'' 1 0 1,
      mk_row 7 ''C'' 0 0 1, mk_row 8 ''C'' 0 0 1, mk_row 9 ''C'' 0 0 1]"

text \<open>
  \<open>i\<close> is the first index of the maximum of a list: no entry is greater, and every
  earlier entry is strictly smaller.
\<close>

definition first_max_index :: "real list \<Rightarrow> nat \<Rightarrow> bool" where
  "first_max_index rates i \<longleftrightarrow>
     i < length rates \<and> (\<forall>j<length rates. rates ! j \<le> rates ! i) \<and>
     (\<forall>j<i. rates ! j < rates ! i)"

text \<open>The rates of one species, over the habitat types in order of first appearance.\<close>

definition species_rates :: "dataset \<Rightarrow> species \<Rightarrow> real list" where
  "species_rates d sp =
     map (\<lambda>w. occurrence_rate (occurrence_entry d w sp)) (unique (map water_body_type d))"

text \<open>The analysis object of the nine-row sample after \<^verbatim>\<open>calculate_occurrence_rates\<close>.\<close>

definition sample_9_ready :: analysis where
  "sample_9_ready = snd (calculate_occurrence_rates (init_analysis sample_9))"

text \<open>
  The descriptive statistics as the specification words them: the sample mean, and the
  sample standard deviation with the unbiased n - 1 divisor, undefined (\<open>None\<close>) on a
  single observation.
\<close>

definition sample_mean :: "real list \<Rightarrow> real" where
  "sample_mean xs = sum_list xs / real (length xs)"

definition sample_std_unbiased :: "real list \<Rightarrow> real" where
  "sample_std_unbiased xs =
     sqrt (sum_list (map (\<lambda>x. (x - sample_mean xs)\<^sup>2) xs) / (real (length xs) - 1))"

definition stats_as_specified :: "real list \<Rightarrow> real option \<Rightarrow> real option \<Rightarrow> bool" where
  "stats_as_specified xs mean_out std_out \<longleftrightarrow>
     mean_out = Some (sample_mean xs) \<and>
     std_out = (if length xs = 1 then None else Some (sample_std_unbiased xs))"

text \<open>Four rows: habitat B has a single row, habitat A has temperatures 3, 6 and 9.\<close>

definition sample_4 :: dataset where
  "sample_4 = [mk_row 1 ''B'' 0 1 1, mk_row 3 ''A'' 1 1 0, mk_row 6 ''A'' 1 0 1,
               mk_row 9 ''A'' 0 0 1]"

text \<open>
  What is assumed of \<^verbatim>\<open>chi2.sf\<close>: at a non-negative statistic and at least one degree of
  freedom its value is a probability.
\<close>

definition probability_valued :: "(real \<Rightarrow> int \<Rightarrow> real) \<Rightarrow> bool" where
  "probability_valued chi2_sf \<longleftrightarrow>
     (\<forall>x k. 0 \<le> x \<longrightarrow> 1 \<le> k \<longrightarrow> 0 \<le> chi2_sf x k \<and> chi2_sf x k \<le> 1)"

text \<open>
  A concrete survival function for running the definitions: that of the chi-square
  distribution with two degrees of freedom.
\<close>

definition exp_sf :: "real \<Rightarrow> int \<Rightarrow> real" where
  "exp_sf x k = exp (- x / 2)"

text \<open>
  Two rows, habitats B and A: RGS is absent in both, RES is present in both, and no
  other habitat type has an observation.
\<close>

definition sample_degenerate :: dataset where
  "sample_degenerate = [mk_row 1 ''B'' 0 1 0, mk_row 2 ''A'' 0 1 1]"

text \<open>
  What \<^verbatim>\<open>contingency_analysis\<close> reports for one species of a non-empty dataset.
\<close>

definition chi2_result_ok :: "(real \<Rightarrow> int \<Rightarrow> real) \<Rightarrow> dataset \<Rightarrow> species \<Rightarrow> chi2_result \<Rightarrow> bool" where
  "chi2_result_ok chi2_sf d sp res \<longleftrightarrow>
     chi2_table res = crosstab (map water_body_type d) (map (present sp) d) \<and>
     0 \<le> chi2_statistic res \<and>
     degrees_of_freedom res
       = (int (length (ct_index (chi2_table res))) - 1)
           * (int (length (ct_columns (chi2_table res))) - 1) \<and>
     (if degrees_of_freedom res = 0 then chi2_statistic res = 0 \<and> p_value res = 1
      else p_value res = chi2_sf (chi2_statistic res) (degrees_of_freedom res)) \<and>
     significant res = (p_value res < 0.05)"

text \<open>The results of \<^verbatim>\<open>contingency_analysis\<close> on the two-row sample.\<close>

definition sample_degenerate_results :: "(real \<Rightarrow> int \<Rightarrow> real) \<Rightarrow> (species \<times> chi2_result) list" where
  "sample_degenerate_results chi2_sf =
     [(RGS, \<lparr>chi2_table = \<lparr>ct_index = [''A'', ''B''], ct_columns = [0], ct_cells = [[1], [1]]\<rparr>,
             chi2_statistic = 0, p_value = 1, degrees_of_freedom = 0, significant = False\<rparr>),
      (RES, \<lparr>chi2_table = \<lparr>ct_index = [''A'', ''B''], ct_columns = [1], ct_cells = [[1], [1]]\<rparr>,
             chi2_statistic = 0, p_value = 1, degrees_of_freedom = 0, significant = False\<rparr>),
      (PH, \<lparr>chi2_table = \<lparr>ct_index = [''A'', ''B''], ct_columns = [0, 1],
                            ct_cells = [[0, 1], [1, 0]]\<rparr>,
            chi2_statistic = 0, p_value = chi2_sf 0 1, degrees_of_freedom = 1,
            significant = (chi2_sf 0 1 < 0.05)\<rparr>)]"

section \<open>The generator: lemmas\<close>

lemma length_normal: "normal g loc scale n s = (xs, s') \<Longrightarrow> length xs = n"
  by (induction n arbitrary: s xs s') (auto split: prod.splits)

lemma length_clip: "length (clip a lo hi) = length a"
  by (simp add: clip_def)

lemma draw_environment_length:
  "draw_environment g w n s = ((a, b, c, d), s') \<Longrightarrow>
     length a = n \<and> length b = n \<and> length c = n \<and> length d = n"
  by (auto simp: draw_environment_def split: if_splits prod.splits dest: length_normal)

lemma gen_observation_step:
  assumes "i < length sal" "i < length ph" "i < length t" "i < length d"
  shows "\<exists>s' obs. gen_observation g w sal ph t d i (s, data) = (s', data @ [obs]) \<and>
           observation_id obs = int (Suc (length data)) \<and> water_body_type obs = w \<and>
           from_arrays sal ph t d obs"
  using assms by (simp add: gen_observation_def from_arrays_def split: prod.splits)

lemma fold_gen_observation:
  assumes "n \<le> length sal" "n \<le> length ph" "n \<le> length t" "n \<le> length d"
  shows "\<exists>s' new. fold (gen_observation g w sal ph t d) [0..<n] (s, data) = (s', data @ new) \<and>
     map observation_id new = map int [Suc (length data)..<Suc (length data + n)] \<and>
     map water_body_type new = replicate n w \<and>
     list_all (from_arrays sal ph t d) new"
  using assms
proof (induction n)
  case 0
  then show ?case by simp
next
  case (Suc n)
  then obtain s' new where h: "fold (gen_observation g w sal ph t d) [0..<n] (s, data) = (s', data @ new)"
    "map observation_id new = map int [Suc (length data)..<Suc (length data + n)]"
    "map water_body_type new = replicate n w"
    "list_all (from_arrays sal ph t d) new"
    by auto
  from h(3) have len: "length new = n" by (metis length_map length_replicate)
  from Suc.prems obtain s'' obs where
    st: "gen_observation g w sal ph t d n (s', data @ new) = (s'', (data @ new) @ [obs])"
    and ob: "observation_id obs = int (Suc (length (data @ new)))" "water_body_type obs = w"
      "from_arrays sal ph t d obs"
    using gen_observation_step[of n sal ph t d g w s' "data @ new"] by auto
  have "fold (gen_observation g w sal ph t d) [0..<Suc n] (s, data) = (s'', data @ (new @ [obs]))"
    using h(1) st by simp
  moreover have "map observation_id (new @ [obs]) = map int [Suc (length data)..<Suc (length data + Suc n)]"
    using h(2) ob(1) len by simp
  moreover have "map water_body_type (new @ [obs]) = replicate (Suc n) w"
    using h(3) ob(2) by (simp add: replicate_append_same)
  moreover have "list_all (from_arrays sal ph t d) (new @ [obs])"
    using h(4) ob(3) by simp
  ultimately show ?case by blast
qed

lemma set_clip_bounds:
  assumes "x \<in> set (clip a a_min a_max)" "a_min \<le> a_max"
  shows "a_min \<le> x \<and> x \<le> a_max"
proof -
  from assms(1) obtain y where "x = min (max y a_min) a_max"
    by (auto simp: clip_def)
  with assms(2) show ?thesis by simp
qed

lemma from_arrays_clip:
  assumes "from_arrays (clip a 0 40) (clip b 6 9) (clip c 0 35) (clip d 2 12) r"
  shows "in_ranges r"
proof -
  have "0 \<le> salinity_ppt r \<and> salinity_ppt r \<le> 40"
    using assms set_clip_bounds[of "salinity_ppt r" a 0 40] by (simp add: from_arrays_def)
  moreover have "6 \<le> pH r \<and> pH r \<le> 9"
    using assms set_clip_bounds[of "pH r" b 6 9] by (simp add: from_arrays_def)
  moreover have "0 \<le> temperature_C r \<and> temperature_C r \<le> 35"
    using assms set_clip_bounds[of "temperature_C r" c 0 35] by (simp add: from_arrays_def)
  moreover have "2 \<le> dissolved_oxygen_mg_L r \<and> dissolved_oxygen_mg_L r \<le> 12"
    using assms set_clip_bounds[of "dissolved_oxygen_mg_L r" d 2 12] by (simp add: from_arrays_def)
  ultimately show ?thesis using assms by (simp add: from_arrays_def in_ranges_def)
qed

lemma gen_habitat_ok:
  assumes "0 \<le> n_samples div 3"
  shows "\<exists>s' new. gen_habitat g n_samples w (s, data) = Inr (s', data @ new) \<and>
     map observation_id new =
       map int [Suc (length data)..<Suc (length data + nat (n_samples div 3))] \<and>
     map water_body_type new = replicate (nat (n_samples div 3)) w \<and>
     list_all in_ranges new"
proof -
  define m where "m = nat (n_samples div 3)"
  obtain a b c d s1 where env: "draw_environment g w m s = ((a, b, c, d), s1)"
    by (cases "draw_environment g w m s") auto
  from draw_environment_length[OF env]
  have len: "m \<le> length (clip a 0 40)" "m \<le> length (clip b 6 9)"
    "m \<le> length (clip c 0 35)" "m \<le> length (clip d 2 12)"
    by (simp_all add: length_clip)
  from fold_gen_observation[OF len, of g w s1 data]
  obtain s' new where f:
    "fold (gen_observation g w (clip a 0 40) (clip b 6 9) (clip c 0 35) (clip d 2 12))
       [0..<m] (s1, data) = (s', data @ new)"
    "map observation_id new = map int [Suc (length data)..<Suc (length data + m)]"
    "map water_body_type new = replicate m w"
    "list_all (from_arrays (clip a 0 40) (clip b 6 9) (clip c 0 35) (clip d 2 12)) new"
    by blast
  have "gen_habitat g n_samples w (s, data) = Inr (s', data @ new)"
    using assms env f(1) by (simp add: gen_habitat_def m_def)
  moreover have "list_all in_ranges new"
    using f(4) by (auto simp: list_all_iff intro: from_arrays_clip)
  ultimately show ?thesis using f(2,3) unfolding m_def by blast
qed

lemma gen_habitat_err: "n_samples div 3 < 0 \<Longrightarrow> gen_habitat g n_samples w st = Inl ValueError"
  by (simp add: gen_habitat_def split: prod.splits)

lemma gen_loop_ok:
  assumes "0 \<le> n_samples div 3"
  shows "\<exists>s' new. gen_loop g n_samples ws (s, data) = Inr (s', data @ new) \<and>
     map observation_id new =
       map int [Suc (length data)..<Suc (length data + nat (n_samples div 3) * length ws)] \<and>
     map water_body_type new = concat (map (replicate (nat (n_samples div 3))) ws) \<and>
     list_all in_ranges new"
proof (induction ws arbitrary: s data)
  case Nil
  show ?case by simp
next
  case (Cons w ws)
  define m where "m = nat (n_samples div 3)"
  from gen_habitat_ok[OF assms, of g w s data]
  obtain s1 new1 where h1: "gen_habitat g n_samples w (s, data) = Inr (s1, data @ new1)"
    "map observation_id new1 = map int [Suc (length data)..<Suc (length data + m)]"
    "map water_body_type new1 = replicate m w" "list_all in_ranges new1"
    unfolding m_def by blast
  from h1(3) have len1: "length new1 = m" by (metis length_map length_replicate)
  from Cons.IH[of s1 "data @ new1"]
  obtain s2 new2 where h2: "gen_loop g n_samples ws (s1, data @ new1) = Inr (s2, (data @ new1) @ new2)"
    "map observation_id new2 =
       map int [Suc (length (data @ new1))..<Suc (length (data @ new1) + m * length ws)]"
    "map water_body_type new2 = concat (map (replicate m) ws)" "list_all in_ranges new2"
    unfolding m_def by blast
  have "gen_loop g n_samples (w # ws) (s, data) = Inr (s2, data @ (new1 @ new2))"
    using h1(1) h2(1) by simp
  moreover have "map observation_id (new1 @ new2) =
      map int [Suc (length data)..<Suc (length data + m * length (w # ws))]"
  proof -
    have "[Suc (length data)..<Suc (length data + m * length (w # ws))] =
          [Suc (length data)..<Suc (length data + m)] @
          [Suc (length data + m)..<Suc (length data + m + m * length ws)]"
      using upt_add_eq_append[of "Suc (length data)" "Suc (length data + m)" "m * length ws"]
      by (simp add: add.assoc)
    then show ?thesis using h1(2) h2(2) len1 by simp
  qed
  moreover have "map water_body_type (new1 @ new2) = concat (map (replicate m) (w # ws))"
    using h1(3) h2(3) by simp
  moreover have "list_all in_ranges (new1 @ new2)"
    using h1(4) h2(4) by simp
  ultimately show ?case unfolding m_def by blast
qed

lemma generate_ok:
  assumes "0 \<le> n_samples div 3"
  shows "\<exists>data s'. generate_habitat_data g n_samples s = Inr (data, s') \<and>
     map observation_id data = map int [1..<Suc (nat (n_samples div 3) * 3)] \<and>
     map water_body_type data = concat (map (replicate (nat (n_samples div 3))) water_types) \<and>
     list_all in_ranges data"
proof -
  from gen_loop_ok[OF assms, of g water_types s "[]"]
  obtain s' new where h: "gen_loop g n_samples water_types (s, []) = Inr (s', new)"
    "map observation_id new = map int [Suc 0..<Suc (nat (n_samples div 3) * length water_types)]"
    "map water_body_type new = concat (map (replicate (nat (n_samples div 3))) water_types)"
    "list_all in_ranges new"
    by auto
  have "length water_types = 3" by (simp add: water_types_def)
  with h show ?thesis by (simp add: generate_habitat_data_def)
qed

lemma generate_err:
  "n_samples div 3 < 0 \<Longrightarrow> generate_habitat_data g n_samples s = Inl ValueError"
  by (simp add: generate_habitat_data_def water_types_def gen_habitat_err)

lemma counter_run_3_eval:
  "generate_habitat_data counter_prng 3 42 = Inr (counter_run_3, 63)"
  by (simp add: generate_habitat_data_def water_types_def gen_habitat_def draw_environment_def
      counter_prng_def gen_observation_def clip_def rgs_prob_def res_prob_def ph_prob_def
      counter_run_3_def)

lemma generate_Inr_D:
  assumes "generate_habitat_data g n_samples s = Inr (data, s')"
  shows "map observation_id data = map int [1..<Suc (nat (n_samples div 3) * 3)] \<and>
     map water_body_type data = concat (map (replicate (nat (n_samples div 3))) water_types) \<and>
     list_all in_ranges data"
proof (cases "n_samples div 3 < 0")
  case True
  with assms show ?thesis by (simp add: generate_err)
next
  case False
  then have "0 \<le> n_samples div 3" by simp
  from generate_ok[OF this, of g s] assms show ?thesis by auto
qed

section \<open>The generator: claims\<close>

text \<open>
  C4. Whenever \<^verbatim>\<open>generate_habitat_data\<close> returns a dataset, for any sample count and
  any generator, every row has salinity in [0, 40], pH in [6, 9], temperature in
  [0, 35], dissolved oxygen in [2, 12], and each presence indicator is 0 or 1.
\<close>

theorem generated_values_in_range:
  assumes "generate_habitat_data g n_samples s = Inr (data, s')" and "r \<in> set data"
  shows "0 \<le> salinity_ppt r \<and> salinity_ppt r \<le> 40 \<and>
         6 \<le> pH r \<and> pH r \<le> 9 \<and>
         0 \<le> temperature_C r \<and> temperature_C r \<le> 35 \<and>
         2 \<le> dissolved_oxygen_mg_L r \<and> dissolved_oxygen_mg_L r \<le> 12 \<and>
         (RGS_present r = 0 \<or> RGS_present r = 1) \<and>
         (RES_present r = 0 \<or> RES_present r = 1) \<and>
         (PH_present r = 0 \<or> PH_present r = 1)"
proof -
  from generate_Inr_D[OF assms(1)] have "list_all in_ranges data" by simp
  with assms(2) have "in_ranges r" by (simp add: list_all_iff)
  then show ?thesis by (simp add: in_ranges_def)
qed

theorem generated_values_in_range_witness:
  "generate_habitat_data counter_prng 3 42 = Inr (counter_run_3, 63) \<and>
   counter_run_3 ! 2 \<in> set counter_run_3 \<and>
   0 \<le> salinity_ppt (counter_run_3 ! 2) \<and> salinity_ppt (counter_run_3 ! 2) \<le> 40 \<and>
   6 \<le> pH (counter_run_3 ! 2) \<and> pH (counter_run_3 ! 2) \<le> 9 \<and>
   0 \<le> temperature_C (counter_run_3 ! 2) \<and> temperature_C (counter_run_3 ! 2) \<le> 35 \<and>
   2 \<le> dissolved_oxygen_mg_L (counter_run_3 ! 2) \<and>
   dissolved_oxygen_mg_L (counter_run_3 ! 2) \<le> 12 \<and>
   (RGS_present (counter_run_3 ! 2) = 0 \<or> RGS_present (counter_run_3 ! 2) = 1) \<and>
   (RES_present (counter_run_3 ! 2) = 0 \<or> RES_present (counter_run_3 ! 2) = 1) \<and>
   (PH_present (counter_run_3 ! 2) = 0 \<or> PH_present (counter_run_3 ! 2) = 1)"
proof -
  have mem: "counter_run_3 ! 2 \<in> set counter_run_3"
    by (simp add: counter_run_3_def)
  from generated_values_in_range[OF counter_run_3_eval mem] counter_run_3_eval mem
  show ?thesis by blast
qed

text \<open>
  C10. In a generated dataset the k-th row (counting from 1) has \<open>observation_id = k\<close>,
  so the identifiers are pairwise distinct, and the habitat labels form one contiguous
  block per habitat type, in the order of the hard-coded list.
\<close>

theorem observation_ids_consecutive:
  assumes "generate_habitat_data g n_samples s = Inr (data, s')"
  shows "(\<forall>k<length data. observation_id (data ! k) = int k + 1) \<and>
         distinct (map observation_id data) \<and>
         map water_body_type data =
           concat (map (replicate (nat (n_samples div 3))) water_types)"
proof -
  define m where "m = nat (n_samples div 3) * 3"
  from generate_Inr_D[OF assms]
  have ids: "map observation_id data = map int [1..<Suc m]"
    and wts: "map water_body_type data =
                concat (map (replicate (nat (n_samples div 3))) water_types)"
    unfolding m_def by simp_all
  from ids have len: "length data = m" by (metis length_map length_upt diff_Suc_1)
  have "observation_id (data ! k) = int k + 1" if "k < length data" for k
  proof -
    have "observation_id (data ! k) = map observation_id data ! k"
      using that by simp
    also have "\<dots> = int ([1..<Suc m] ! k)"
      using that len by (simp add: ids del: upt_Suc)
    also have "\<dots> = int k + 1" using that len by (simp del: upt_Suc)
    finally show ?thesis .
  qed
  moreover have "distinct (map observation_id data)"
    unfolding ids by (simp add: distinct_map inj_on_def)
  ultimately show ?thesis using wts by blast
qed

theorem observation_ids_consecutive_witness:
  "generate_habitat_data counter_prng 3 42 = Inr (counter_run_3, 63) \<and>
   length counter_run_3 = 3 \<and>
   observation_id (counter_run_3 ! 0) = 1 \<and>
   observation_id (counter_run_3 ! 1) = 2 \<and>
   observation_id (counter_run_3 ! 2) = 3 \<and>
   distinct (map observation_id counter_run_3) \<and>
   map water_body_type counter_run_3 = concat (map (replicate (nat (3 div 3))) water_types)"
proof -
  have len: "length counter_run_3 = 3" by (simp add: counter_run_3_def)
  from observation_ids_consecutive[OF counter_run_3_eval]
  have ids: "\<forall>k<3. observation_id (counter_run_3 ! k) = int k + 1"
    and rest: "distinct (map observation_id counter_run_3)"
      "map water_body_type counter_run_3 = concat (map (replicate (nat (3 div 3))) water_types)"
    unfolding len by blast+
  from ids have "observation_id (counter_run_3 ! 0) = 1"
    "observation_id (counter_run_3 ! 1) = 2" "observation_id (counter_run_3 ! 2) = 3"
    by auto
  with counter_run_3_eval len rest show ?thesis by blast
qed

text \<open>
  C1, evaluated on the code. For \<open>n_samples = 500\<close> every habitat type receives
  \<open>500 // 3 = 166\<close> rows, so the dataset has 498 rows in groups of 166, 166 and 166,
  whatever the generator draws: not the 500 rows of the docstring's total.
\<close>

theorem generate_500_yields_498:
  "\<exists>data s'. generate_habitat_data g 500 s = Inr (data, s') \<and> length data = 498 \<and>
     map (\<lambda>w. length (filter (\<lambda>row. water_body_type row = w) data)) water_types
       = [166, 166, 166]"
proof -
  have "(0::int) \<le> 500 div 3" by simp
  from generate_ok[OF this, of g s]
  obtain data s' where h: "generate_habitat_data g 500 s = Inr (data, s')"
    "map observation_id data = map int [1..<Suc (nat (500 div 3) * 3)]"
    "map water_body_type data = concat (map (replicate (nat (500 div 3))) water_types)"
    by blast
  have m: "nat (500 div 3) = 166" by simp
  from h(2) have "length (map observation_id data) = 498" unfolding m by simp
  then have len: "length data = 498" by simp
  have cnt: "length (filter (\<lambda>row. water_body_type row = w) data)
               = length (filter (\<lambda>x. x = w) (map water_body_type data))" for w
    by (simp add: filter_map comp_def)
  have "map (\<lambda>w. length (filter (\<lambda>row. water_body_type row = w) data)) water_types
          = [166, 166, 166]"
    unfolding cnt h(3) m by (simp add: water_types_def)
  with h(1) len show ?thesis by auto
qed

subsection \<open>Two runs with the same draws\<close>

lemma normal_agree:
  assumes "draws_agree R g g'" "R s s'"
  shows "fst (normal g loc scale n s) = fst (normal g' loc scale n s') \<and>
         R (snd (normal g loc scale n s)) (snd (normal g' loc scale n s'))"
  using assms(2)
proof (induction n arbitrary: s s')
  case 0
  then show ?case by simp
next
  case (Suc n)
  from assms(1) Suc.prems
  have x: "fst (rng_normal g loc scale s) = fst (rng_normal g' loc scale s')"
    and r: "R (snd (rng_normal g loc scale s)) (snd (rng_normal g' loc scale s'))"
    unfolding draws_agree_def by blast+
  from Suc.IH[OF r] x show ?case
    by (simp add: split_beta)
qed

lemma draw_environment_agree:
  assumes "draws_agree R g g'" "R s s'"
  shows "fst (draw_environment g w n s) = fst (draw_environment g' w n s') \<and>
         R (snd (draw_environment g w n s)) (snd (draw_environment g' w n s'))"
proof -
  have step: "fst (normal g loc scale n t) = fst (normal g' loc scale n t') \<and>
         R (snd (normal g loc scale n t)) (snd (normal g' loc scale n t'))"
    if "R t t'" for loc scale t t'
    using normal_agree[OF assms(1) that] .
  have four: "(fst (normal g l1 c1 n s),
           fst (normal g l2 c2 n (snd (normal g l1 c1 n s))),
           fst (normal g l3 c3 n (snd (normal g l2 c2 n (snd (normal g l1 c1 n s))))),
           fst (normal g l4 c4 n (snd (normal g l3 c3 n (snd (normal g l2 c2 n
             (snd (normal g l1 c1 n s)))))))) =
          (fst (normal g' l1 c1 n s'),
           fst (normal g' l2 c2 n (snd (normal g' l1 c1 n s'))),
           fst (normal g' l3 c3 n (snd (normal g' l2 c2 n (snd (normal g' l1 c1 n s'))))),
           fst (normal g' l4 c4 n (snd (normal g' l3 c3 n (snd (normal g' l2 c2 n
             (snd (normal g' l1 c1 n s')))))))) \<and>
        R (snd (normal g l4 c4 n (snd (normal g l3 c3 n (snd (normal g l2 c2 n
             (snd (normal g l1 c1 n s))))))))
          (snd (normal g' l4 c4 n (snd (normal g' l3 c3 n (snd (normal g' l2 c2 n
             (snd (normal g' l1 c1 n s'))))))))"
    for l1 c1 l2 c2 l3 c3 l4 c4
  proof -
    note a = step[OF assms(2), of l1 c1]
    note b = step[OF conjunct2[OF a], of l2 c2]
    note c = step[OF conjunct2[OF b], of l3 c3]
    note d = step[OF conjunct2[OF c], of l4 c4]
    from a b c d show ?thesis by simp
  qed
  show ?thesis
    unfolding draw_environment_def split_beta
    using four by (simp split: if_splits)
qed

lemma gen_observation_agree:
  assumes "draws_agree R g g'" "same_rows R st st'"
  shows "same_rows R (gen_observation g w sal ph t d i st) (gen_observation g' w sal ph t d i st')"
proof -
  have step: "fst (rng_random g u) = fst (rng_random g' u') \<and>
              R (snd (rng_random g u)) (snd (rng_random g' u'))" if "R u u'" for u u'
    using assms(1) that unfolding draws_agree_def by blast
  from assms(2) have r0: "R (fst st) (fst st')" and rows: "snd st = snd st'"
    unfolding same_rows_def by blast+
  note a = step[OF r0]
  note b = step[OF conjunct2[OF a]]
  note c = step[OF conjunct2[OF b]]
  from a b c rows show ?thesis
    unfolding gen_observation_def same_rows_def split_beta by simp
qed

lemma fold_gen_observation_agree:
  assumes "draws_agree R g g'" "same_rows R st st'"
  shows "same_rows R (fold (gen_observation g w sal ph t d) is st)
                     (fold (gen_observation g' w sal ph t d) is st')"
  using assms(2)
proof (induction "is" arbitrary: st st')
  case Nil
  then show ?case by simp
next
  case (Cons i "is")
  from gen_observation_agree[OF assms(1) Cons.prems]
  have "same_rows R (gen_observation g w sal ph t d i st) (gen_observation g' w sal ph t d i st')" .
  from Cons.IH[OF this] show ?case by simp
qed

lemma gen_habitat_agree:
  assumes "draws_agree R g g'" "same_rows R st st'"
  shows "rel_sum (=) (same_rows R) (gen_habitat g n_samples w st) (gen_habitat g' n_samples w st')"
proof (cases "n_samples div 3 < 0")
  case True
  then show ?thesis by (simp add: gen_habitat_err)
next
  case False
  define m where "m = nat (n_samples div 3)"
  from assms(2) have r0: "R (fst st) (fst st')" and rows: "snd st = snd st'"
    unfolding same_rows_def by blast+
  from draw_environment_agree[OF assms(1) r0, of w m]
  have env: "fst (draw_environment g w m (fst st)) = fst (draw_environment g' w m (fst st'))"
    and r1: "R (snd (draw_environment g w m (fst st))) (snd (draw_environment g' w m (fst st')))"
    by blast+
  have start: "same_rows R (snd (draw_environment g w m (fst st)), snd st)
                           (snd (draw_environment g' w m (fst st')), snd st')"
    using r1 rows by (simp add: same_rows_def)
  show ?thesis
    using False fold_gen_observation_agree[OF assms(1) start]
    unfolding gen_habitat_def split_beta Let_def m_def[symmetric] env
    by simp
qed

lemma gen_loop_agree:
  assumes "draws_agree R g g'" "same_rows R st st'"
  shows "rel_sum (=) (same_rows R) (gen_loop g n_samples ws st) (gen_loop g' n_samples ws st')"
  using assms(2)
proof (induction ws arbitrary: st st')
  case Nil
  then show ?case by simp
next
  case (Cons w ws)
  from gen_habitat_agree[OF assms(1) Cons.prems, of n_samples w]
  have rel: "rel_sum (=) (same_rows R) (gen_habitat g n_samples w st)
                                       (gen_habitat g' n_samples w st')" .
  show ?case
  proof (cases "gen_habitat g n_samples w st")
    case (Inl e)
    with rel have "gen_habitat g' n_samples w st' = Inl e"
      by (cases "gen_habitat g' n_samples w st'") simp_all
    with Inl show ?thesis by simp
  next
    case (Inr st1)
    with rel obtain st1' where r': "gen_habitat g' n_samples w st' = Inr st1'"
      and same: "same_rows R st1 st1'"
      by (cases "gen_habitat g' n_samples w st'") simp_all
    from Cons.IH[OF same] Inr r' show ?thesis by simp
  qed
qed

lemma generate_habitat_data_agree:
  assumes "draws_agree R g g'" "R s s'"
  shows "map_sum id fst (generate_habitat_data g n_samples s)
           = map_sum id fst (generate_habitat_data g' n_samples s')"
proof -
  have "same_rows R (s, []) (s', [])" using assms(2) by (simp add: same_rows_def)
  from gen_loop_agree[OF assms(1) this, of n_samples water_types]
  have rel: "rel_sum (=) (same_rows R) (gen_loop g n_samples water_types (s, []))
                                       (gen_loop g' n_samples water_types (s', []))" .
  show ?thesis
  proof (cases "gen_loop g n_samples water_types (s, [])")
    case (Inl e)
    with rel have "gen_loop g' n_samples water_types (s', []) = Inl e"
      by (cases "gen_loop g' n_samples water_types (s', [])") simp_all
    with Inl show ?thesis by (simp add: generate_habitat_data_def)
  next
    case (Inr st1)
    with rel obtain st1' where r': "gen_loop g' n_samples water_types (s', []) = Inr st1'"
      and same: "same_rows R st1 st1'"
      by (cases "gen_loop g' n_samples water_types (s', [])") simp_all
    from same have "snd st1 = snd st1'" by (simp add: same_rows_def)
    with Inr r' show ?thesis
      by (simp add: generate_habitat_data_def split_beta)
  qed
qed

lemma generation_stage_eq:
  "generation_stage g s0 n_samples
     = map_sum id fst (generate_habitat_data g n_samples (rng_seed g 42 s0))"
  by (simp add: generation_stage_def split: sum.splits)

lemma counter_shifted_agree: "draws_agree (\<lambda>c c'. c' = c + 100) counter_prng shifted_prng"
  by (simp add: draws_agree_def counter_prng_def shifted_prng_def)

text \<open>
  C5. Take two runs of the generation stage with the same sample count, in two
  processes whose generators draw the same values once seeded with the same seed,
  whatever their states before. Both runs return the same result: for a negative sample
  count the \<^verbatim>\<open>ValueError\<close>, and otherwise the same dataset, of three times
  \<open>n_samples // 3\<close> rows.
\<close>

theorem generation_stage_deterministic:
  assumes "draws_agree R g g'"
  shows "generation_stage g s0 n_samples = generation_stage g' s0' n_samples \<and>
         (if n_samples < 0 then generation_stage g s0 n_samples = Inl ValueError
          else (\<exists>data. generation_stage g s0 n_samples = Inr data \<and>
                       generation_stage g' s0' n_samples = Inr data \<and>
                       length data = 3 * nat (n_samples div 3)))"
proof -
  from assms have seeded: "R (rng_seed g 42 s0) (rng_seed g' 42 s0')"
    unfolding draws_agree_def by blast
  have same: "generation_stage g s0 n_samples = generation_stage g' s0' n_samples"
    unfolding generation_stage_eq
    by (rule generate_habitat_data_agree[OF assms seeded])
  show ?thesis
  proof (cases "n_samples < 0")
    case True
    then have "n_samples div 3 < 0" by simp
    then have "generation_stage g s0 n_samples = Inl ValueError"
      by (simp add: generation_stage_def generate_err)
    with same True show ?thesis by simp
  next
    case False
    then have "0 \<le> n_samples div 3" by simp
    from generate_ok[OF this, of g "rng_seed g 42 s0"]
    obtain data s' where run: "generate_habitat_data g n_samples (rng_seed g 42 s0) = Inr (data, s')"
      and ids: "map observation_id data = map int [1..<Suc (nat (n_samples div 3) * 3)]"
      by blast
    from ids have "length (map observation_id data) = nat (n_samples div 3) * 3" by simp
    then have len: "length data = 3 * nat (n_samples div 3)" by simp
    from run have first: "generation_stage g s0 n_samples = Inr data"
      by (simp add: generation_stage_def)
    with same have second: "generation_stage g' s0' n_samples = Inr data" by simp
    from first second len have "\<exists>data. generation_stage g s0 n_samples = Inr data \<and>
                       generation_stage g' s0' n_samples = Inr data \<and>
                       length data = 3 * nat (n_samples div 3)"
      by blast
    with same False show ?thesis by simp
  qed
qed

text \<open>
  The theorem at the counter generator and the generator running 100 ahead, from prior
  states 0 and 7, for three samples: both runs return the same three rows.
\<close>

theorem generation_stage_deterministic_witness:
  "draws_agree (\<lambda>c c'. c' = c + 100) counter_prng shifted_prng \<and>
   generation_stage counter_prng 0 3 = Inr counter_run_3 \<and>
   generation_stage shifted_prng 7 3 = Inr counter_run_3 \<and>
   length counter_run_3 = 3 * nat (3 div 3)"
proof -
  have first: "generation_stage counter_prng 0 3 = Inr counter_run_3"
    using counter_run_3_eval by (simp add: generation_stage_def counter_prng_def)
  have len: "length counter_run_3 = 3 * nat (3 div 3)"
    by (simp add: counter_run_3_def)
  from generation_stage_deterministic[OF counter_shifted_agree, of 0 3 7]
  have "generation_stage counter_prng 0 3 = generation_stage shifted_prng 7 3"
    by (rule conjunct1)
  with first have "generation_stage shifted_prng 7 3 = Inr counter_run_3" by simp
  with counter_shifted_agree first len show ?thesis by (intro conjI)
qed

section \<open>The analyzer and the renderer: occurrence rates and summary\<close>

lemma set_unique: "set (unique xs) = set xs"
  by (induction xs rule: unique.induct) auto

lemma distinct_unique: "distinct (unique xs)"
  by (induction xs rule: unique.induct) (auto simp: set_unique)

lemma unique_Nil_iff: "unique xs = [] \<longleftrightarrow> xs = []"
  by (cases xs) auto

lemma present_binary: "binary_presence r \<Longrightarrow> present sp r = 0 \<or> present sp r = 1"
  by (cases sp) (auto simp: binary_presence_def)

lemma sum_present_count:
  "list_all binary_presence rows \<Longrightarrow>
     sum_list (map (present sp) rows) = int (presence_count sp rows)"
proof (induction rows)
  case Nil
  show ?case by (simp add: presence_count_def)
next
  case (Cons r rows)
  then have "present sp r = 0 \<or> present sp r = 1" by (simp add: present_binary)
  with Cons show ?case by (auto simp: presence_count_def)
qed

lemma habitat_subset_nonempty:
  "w \<in> set (map water_body_type d) \<Longrightarrow> habitat_subset d w \<noteq> []"
  by (auto simp: habitat_subset_def filter_empty_conv)

lemma species_filter:
  "filter (\<lambda>e. occ_species e = sp) (map (occurrence_entry d w) species_list)
     = [occurrence_entry d w sp]"
  by (cases sp) (simp_all add: species_list_def occurrence_entry_def Let_def)

lemma filter_concat_map:
  "filter P (concat (map f ws)) = concat (map (\<lambda>w. filter P (f w)) ws)"
  by (induction ws) auto

lemma species_data_eq:
  "filter (\<lambda>e. occ_species e = sp) (occurrence_data d)
     = map (\<lambda>w. occurrence_entry d w sp) (unique (map water_body_type d))"
  unfolding occurrence_data_def filter_concat_map species_filter
  by (induction "unique (map water_body_type d)") auto

lemma sum_indicator_absent:
  "k \<notin> set ws \<Longrightarrow> sum_list (map (\<lambda>w. if k = w then c else 0) ws) = (0::int)"
  by (induction ws) auto

lemma sum_indicator:
  "distinct ws \<Longrightarrow> k \<in> set ws \<Longrightarrow>
     sum_list (map (\<lambda>w. if k = w then c else 0) ws) = (c::int)"
  by (induction ws) (auto simp: sum_indicator_absent)

lemma sum_by_key:
  assumes "distinct ws" "key ` set d \<subseteq> set ws"
  shows "sum_list (map (\<lambda>w. sum_list (map f (filter (\<lambda>r. key r = w) d))) ws)
           = (sum_list (map f d) :: int)"
  using assms(2)
proof (induction d)
  case Nil
  show ?case by simp
next
  case (Cons r d)
  have one: "sum_list (map (\<lambda>w. if key r = w then f r else 0) ws) = f r"
    using assms(1) Cons.prems by (intro sum_indicator) auto
  have "sum_list (map (\<lambda>w. sum_list (map f (filter (\<lambda>r. key r = w) (r # d)))) ws)
        = sum_list (map (\<lambda>w. (if key r = w then f r else 0)
                               + sum_list (map f (filter (\<lambda>r. key r = w) d))) ws)"
    by (intro arg_cong[where f=sum_list] map_cong) auto
  also have "\<dots> = f r + sum_list (map f d)"
    using Cons one by (simp add: sum_list_addf)
  finally show ?case by simp
qed

lemma sample_9_occurrence_data:
  "occurrence_data sample_9 =
    [\<lparr>occ_species = RGS, occ_water_body_type = ''B'', occurrences = 0, n_observations = 3, occurrence_rate = 0\<rparr>,
     \<lparr>occ_species = RES, occ_water_body_type = ''B'', occurrences = 2, n_observations = 3, occurrence_rate = 200 / 3\<rparr>,
     \<lparr>occ_species = PH, occ_water_body_type = ''B'', occurrences = 2, n_observations = 3, occurrence_rate = 200 / 3\<rparr>,
     \<lparr>occ_species = RGS, occ_water_body_type = ''A'', occurrences = 3, n_observations = 3, occurrence_rate = 100\<rparr>,
     \<lparr>occ_species = RES, occ_water_body_type = ''A'', occurrences = 2, n_observations = 3, occurrence_rate = 200 / 3\<rparr>,
     \<lparr>occ_species = PH, occ_water_body_type = ''A'', occurrences = 2, n_observations = 3, occurrence_rate = 200 / 3\<rparr>,
     \<lparr>occ_species = RGS, occ_water_body_type = ''C'', occurrences = 0, n_observations = 3, occurrence_rate = 0\<rparr>,
     \<lparr>occ_species = RES, occ_water_body_type = ''C'', occurrences = 0, n_observations = 3, occurrence_rate = 0\<rparr>,
     \<lparr>occ_species = PH, occ_water_body_type = ''C'', occurrences = 3, n_observations = 3, occurrence_rate = 100\<rparr>]"
  by (simp add: occurrence_data_def sample_9_def mk_row_def species_list_def occurrence_entry_def
      habitat_subset_def)

lemma sample_9_binary: "list_all binary_presence sample_9"
  by (simp add: sample_9_def mk_row_def binary_presence_def)

lemma occurrence_data_entry:
  assumes "e \<in> set (occurrence_data d)"
  shows "\<exists>w sp. w \<in> set (map water_body_type d) \<and> e = occurrence_entry d w sp"
  using assms by (auto simp: occurrence_data_def set_unique)

lemma presence_count_le: "presence_count sp rows \<le> length rows"
  by (simp add: presence_count_def)

lemma occurrence_entry_props:
  assumes "list_all binary_presence d" "w \<in> set (map water_body_type d)"
  shows "n_observations (occurrence_entry d w sp) = length (habitat_subset d w)"
    "occ_water_body_type (occurrence_entry d w sp) = w"
    "occ_species (occurrence_entry d w sp) = sp"
    "0 < n_observations (occurrence_entry d w sp)"
    "occurrences (occurrence_entry d w sp) = int (presence_count sp (habitat_subset d w))"
    "occurrence_rate (occurrence_entry d w sp) =
       real_of_int (occurrences (occurrence_entry d w sp))
         / real (n_observations (occurrence_entry d w sp)) * 100"
    "0 \<le> occurrence_rate (occurrence_entry d w sp)"
    "occurrence_rate (occurrence_entry d w sp) \<le> 100"
proof -
  let ?sub = "habitat_subset d w"
  have bin: "list_all binary_presence ?sub"
    using assms(1) by (simp add: habitat_subset_def list_all_iff)
  have pos: "0 < length ?sub"
    using habitat_subset_nonempty[OF assms(2)] by simp
  have occ: "sum_list (map (present sp) ?sub) = int (presence_count sp ?sub)"
    by (rule sum_present_count[OF bin])
  show "n_observations (occurrence_entry d w sp) = length ?sub"
    "occ_water_body_type (occurrence_entry d w sp) = w"
    "occ_species (occurrence_entry d w sp) = sp"
    by (simp_all add: occurrence_entry_def Let_def)
  show "0 < n_observations (occurrence_entry d w sp)"
    using pos by (simp add: occurrence_entry_def Let_def)
  show "occurrences (occurrence_entry d w sp) = int (presence_count sp ?sub)"
    using occ by (simp add: occurrence_entry_def Let_def)
  show "occurrence_rate (occurrence_entry d w sp) =
       real_of_int (occurrences (occurrence_entry d w sp))
         / real (n_observations (occurrence_entry d w sp)) * 100"
    by (simp add: occurrence_entry_def Let_def)
  have rate: "occurrence_rate (occurrence_entry d w sp)
                = real (presence_count sp ?sub) / real (length ?sub) * 100"
    using occ by (simp add: occurrence_entry_def Let_def)
  show "0 \<le> occurrence_rate (occurrence_entry d w sp)"
    unfolding rate by simp
  have "real (presence_count sp ?sub) \<le> real (length ?sub)"
    using presence_count_le[of sp ?sub] by simp
  then show "occurrence_rate (occurrence_entry d w sp) \<le> 100"
    unfolding rate using pos by (simp add: field_simps)
qed

lemma occurrences_sum:
  "sum_list (map occurrences (filter (\<lambda>x. occ_species x = sp) (occurrence_data d)))
     = sum_list (map (present sp) d)"
proof -
  have "sum_list (map occurrences (filter (\<lambda>x. occ_species x = sp) (occurrence_data d)))
      = sum_list (map (\<lambda>w. sum_list (map (present sp) (filter (\<lambda>r. water_body_type r = w) d)))
                      (unique (map water_body_type d)))"
    unfolding species_data_eq
    by (simp add: comp_def occurrence_entry_def Let_def habitat_subset_def)
  also have "\<dots> = sum_list (map (present sp) d)"
    by (rule sum_by_key) (simp_all add: distinct_unique set_unique)
  finally show ?thesis .
qed

lemma occurrence_data_keys:
  "map (\<lambda>e. (occ_water_body_type e, occ_species e)) (occurrence_data d)
     = List.product (unique (map water_body_type d)) species_list"
  by (simp add: occurrence_data_def product_concat_map map_concat comp_def
      occurrence_entry_def Let_def)

lemma species_list_complete: "sp \<in> set species_list"
  by (cases sp) (simp_all add: species_list_def)

lemma occurrence_entry_mem:
  assumes "w \<in> set (map water_body_type d)"
  shows "occurrence_entry d w sp \<in> set (occurrence_data d)"
  using assms species_list_complete[of sp]
  by (auto simp: occurrence_data_def set_unique)

lemma habitat_subset_nonempty_iff:
  "habitat_subset d w \<noteq> [] \<longleftrightarrow> w \<in> set (map water_body_type d)"
  by (auto simp: habitat_subset_def filter_empty_conv)

text \<open>
  C6. On a dataset whose presence indicators are 0 or 1, the table computed by
  \<^verbatim>\<open>calculate_occurrence_rates\<close> has exactly one entry for every habitat type that
  occurs and every species. For every species and every habitat type with a non-zero
  number of rows, the entry of the pair has the rate (presence count / number of the
  habitat's rows) * 100, which lies in [0, 100]. Every entry has a non-zero observation
  count, the number of rows of its habitat type, and its occurrence count is the number
  of those rows with the species present. For each species the occurrence counts over
  the habitat types add up to the species' presence count in the whole dataset.
\<close>

theorem occurrence_rates_correct:
  assumes "list_all binary_presence (df a)"
  shows "map (\<lambda>e. (occ_water_body_type e, occ_species e)) (fst (calculate_occurrence_rates a))
           = List.product (unique (map water_body_type (df a))) species_list \<and>
         distinct (map (\<lambda>e. (occ_water_body_type e, occ_species e))
                       (fst (calculate_occurrence_rates a))) \<and>
         (\<forall>w sp. habitat_subset (df a) w \<noteq> [] \<longrightarrow>
            (\<exists>e \<in> set (fst (calculate_occurrence_rates a)).
               occ_water_body_type e = w \<and> occ_species e = sp \<and>
               occurrence_rate e
                 = real (presence_count sp (habitat_subset (df a) w))
                     / real (length (habitat_subset (df a) w)) * 100 \<and>
               0 \<le> occurrence_rate e \<and> occurrence_rate e \<le> 100)) \<and>
         (\<forall>e \<in> set (fst (calculate_occurrence_rates a)).
            n_observations e = length (habitat_subset (df a) (occ_water_body_type e)) \<and>
            0 < n_observations e \<and>
            occurrences e = int (presence_count (occ_species e)
                                   (habitat_subset (df a) (occ_water_body_type e))) \<and>
            occurrence_rate e = real_of_int (occurrences e) / real (n_observations e) * 100 \<and>
            0 \<le> occurrence_rate e \<and> occurrence_rate e \<le> 100) \<and>
         (\<forall>sp. sum_list (map occurrences
                   (filter (\<lambda>x. occ_species x = sp) (fst (calculate_occurrence_rates a))))
                = int (presence_count sp (df a)))"
proof -
  have out: "fst (calculate_occurrence_rates a) = occurrence_data (df a)"
    by (simp add: calculate_occurrence_rates_def Let_def)
  have keys: "map (\<lambda>e. (occ_water_body_type e, occ_species e)) (fst (calculate_occurrence_rates a))
           = List.product (unique (map water_body_type (df a))) species_list"
    unfolding out by (rule occurrence_data_keys)
  have dist: "distinct (map (\<lambda>e. (occ_water_body_type e, occ_species e))
                       (fst (calculate_occurrence_rates a)))"
    unfolding keys by (intro distinct_product distinct_unique) (simp add: species_list_def)
  have pairs: "\<exists>e \<in> set (fst (calculate_occurrence_rates a)).
               occ_water_body_type e = w \<and> occ_species e = sp \<and>
               occurrence_rate e
                 = real (presence_count sp (habitat_subset (df a) w))
                     / real (length (habitat_subset (df a) w)) * 100 \<and>
               0 \<le> occurrence_rate e \<and> occurrence_rate e \<le> 100"
    if "habitat_subset (df a) w \<noteq> []" for w sp
  proof -
    from that have w: "w \<in> set (map water_body_type (df a))"
      by (simp only: habitat_subset_nonempty_iff)
    note p = occurrence_entry_props[OF assms w, of sp]
    have "occurrence_entry (df a) w sp \<in> set (fst (calculate_occurrence_rates a))"
      unfolding out by (rule occurrence_entry_mem[OF w])
    moreover have "occurrence_rate (occurrence_entry (df a) w sp)
                 = real (presence_count sp (habitat_subset (df a) w))
                     / real (length (habitat_subset (df a) w)) * 100"
      using p(1,5,6) by simp
    ultimately show ?thesis using p(2,3,7,8) by blast
  qed
  have entries: "n_observations e = length (habitat_subset (df a) (occ_water_body_type e)) \<and>
            0 < n_observations e \<and>
            occurrences e = int (presence_count (occ_species e)
                                   (habitat_subset (df a) (occ_water_body_type e))) \<and>
            occurrence_rate e = real_of_int (occurrences e) / real (n_observations e) * 100 \<and>
            0 \<le> occurrence_rate e \<and> occurrence_rate e \<le> 100"
    if "e \<in> set (fst (calculate_occurrence_rates a))" for e
  proof -
    from that have "e \<in> set (occurrence_data (df a))" by (simp only: out)
    then obtain w sp where w: "w \<in> set (map water_body_type (df a))"
      and e: "e = occurrence_entry (df a) w sp"
      using occurrence_data_entry by blast
    note p = occurrence_entry_props[OF assms w, of sp]
    have "n_observations e = length (habitat_subset (df a) (occ_water_body_type e))"
      unfolding e using p(1,2) by simp
    moreover have "0 < n_observations e" unfolding e by (rule p(4))
    moreover have "occurrences e = int (presence_count (occ_species e)
                                   (habitat_subset (df a) (occ_water_body_type e)))"
      unfolding e using p(2,3,5) by simp
    moreover have "occurrence_rate e
        = real_of_int (occurrences e) / real (n_observations e) * 100"
      unfolding e by (rule p(6))
    moreover have "0 \<le> occurrence_rate e" unfolding e by (rule p(7))
    moreover have "occurrence_rate e \<le> 100" unfolding e by (rule p(8))
    ultimately show ?thesis by blast
  qed
  have sums: "sum_list (map occurrences
                   (filter (\<lambda>x. occ_species x = sp) (fst (calculate_occurrence_rates a))))
                = int (presence_count sp (df a))" for sp
    unfolding out
    using occurrences_sum[of sp "df a"] sum_present_count[OF assms, of sp] by simp
  from keys dist pairs entries sums show ?thesis by blast
qed

text \<open>
  The theorem at the nine-row sample: the nine pairs of the table, and the entry of RES
  in habitat A.
\<close>

theorem occurrence_rates_correct_witness:
  "list_all binary_presence (df (init_analysis sample_9)) \<and>
   map (\<lambda>e. (occ_water_body_type e, occ_species e))
       (fst (calculate_occurrence_rates (init_analysis sample_9)))
     = [(''B'', RGS), (''B'', RES), (''B'', PH), (''A'', RGS), (''A'', RES), (''A'', PH),
        (''C'', RGS), (''C'', RES), (''C'', PH)] \<and>
   habitat_subset (df (init_analysis sample_9)) ''A'' \<noteq> [] \<and>
   occurrence_entry sample_9 ''A'' RES
     \<in> set (fst (calculate_occurrence_rates (init_analysis sample_9))) \<and>
   n_observations (occurrence_entry sample_9 ''A'' RES) = 3 \<and>
   occurrences (occurrence_entry sample_9 ''A'' RES) = 2 \<and>
   occurrence_rate (occurrence_entry sample_9 ''A'' RES) = 2 / 3 * 100 \<and>
   0 \<le> occurrence_rate (occurrence_entry sample_9 ''A'' RES) \<and>
   occurrence_rate (occurrence_entry sample_9 ''A'' RES) \<le> 100 \<and>
   sum_list (map occurrences (filter (\<lambda>x. occ_species x = RES)
               (fst (calculate_occurrence_rates (init_analysis sample_9))))) = 4 \<and>
   presence_count RES (df (init_analysis sample_9)) = 4"
proof -
  let ?a = "init_analysis sample_9"
  let ?e = "occurrence_entry sample_9 ''A'' RES"
  have d: "df ?a = sample_9" by (simp add: init_analysis_def)
  have bin: "list_all binary_presence (df ?a)"
    unfolding d by (rule sample_9_binary)
  have e: "?e = \<lparr>occ_species = RES, occ_water_body_type = ''A'', occurrences = 2,
                  n_observations = 3, occurrence_rate = 200 / 3\<rparr>"
    by (simp add: occurrence_entry_def habitat_subset_def sample_9_def mk_row_def)
  have mem: "?e \<in> set (fst (calculate_occurrence_rates ?a))"
    unfolding e
    by (simp add: calculate_occurrence_rates_def init_analysis_def sample_9_occurrence_data Let_def)
  have cnt: "presence_count RES (df ?a) = 4"
    unfolding d by (simp add: presence_count_def sample_9_def mk_row_def)
  have sub: "habitat_subset (df ?a) ''A'' \<noteq> []"
    unfolding d by (simp add: habitat_subset_def sample_9_def mk_row_def)
  have prod: "List.product (unique (map water_body_type (df ?a))) species_list
     = [(''B'', RGS), (''B'', RES), (''B'', PH), (''A'', RGS), (''A'', RES), (''A'', PH),
        (''C'', RGS), (''C'', RES), (''C'', PH)]"
    unfolding d by (simp add: sample_9_def mk_row_def species_list_def)
  note main = occurrence_rates_correct[OF bin]
  from main have keys: "map (\<lambda>e. (occ_water_body_type e, occ_species e))
       (fst (calculate_occurrence_rates ?a))
     = List.product (unique (map water_body_type (df ?a))) species_list"
    by (rule conjunct1)
  from main mem have range: "0 \<le> occurrence_rate ?e \<and> occurrence_rate ?e \<le> 100"
    by blast
  from main have "sum_list (map occurrences (filter (\<lambda>x. occ_species x = RES)
               (fst (calculate_occurrence_rates ?a)))) = int (presence_count RES (df ?a))"
    by blast
  with cnt have total: "sum_list (map occurrences (filter (\<lambda>x. occ_species x = RES)
               (fst (calculate_occurrence_rates ?a)))) = 4"
    by simp
  have vals: "n_observations ?e = 3" "occurrences ?e = 2" "occurrence_rate ?e = 2 / 3 * 100"
    by (simp_all add: e)
  from bin keys[unfolded prod] sub mem vals range total cnt show ?thesis
    by blast
qed

lemma viz_rate_eq: "viz_rate d w sp = occurrence_rate (occurrence_entry d w sp)"
  by (simp add: viz_rate_def occurrence_entry_def habitat_subset_def Let_def)

text \<open>
  C9. The rates the renderer computes for the grouped bar chart, entry by entry with
  their habitat and species, and the rows of the heatmap, are the rates of
  \<^verbatim>\<open>calculate_occurrence_rates\<close> on the same DataFrame, in the same order: one
  heatmap row per habitat type, one column per species.
\<close>

theorem renderer_rates_agree:
  "map (\<lambda>b. (bar_water_body_type b, bar_species b, bar_occurrence_rate b))
       (plot_occurrence_by_habitat (df a))
     = map (\<lambda>e. (occ_water_body_type e, occ_species e, occurrence_rate e))
           (fst (calculate_occurrence_rates a)) \<and>
   concat (plot_heatmap (df a)) = map occurrence_rate (fst (calculate_occurrence_rates a)) \<and>
   map length (plot_heatmap (df a))
     = replicate (length (unique (map water_body_type (df a)))) (length species_list)"
proof (intro conjI)
  show "map (\<lambda>b. (bar_water_body_type b, bar_species b, bar_occurrence_rate b))
       (plot_occurrence_by_habitat (df a))
     = map (\<lambda>e. (occ_water_body_type e, occ_species e, occurrence_rate e))
           (fst (calculate_occurrence_rates a))"
    by (simp add: plot_occurrence_by_habitat_def calculate_occurrence_rates_def
        occurrence_data_def viz_water_types_def map_concat comp_def viz_rate_eq Let_def)
      (simp add: occurrence_entry_def Let_def)
  show "concat (plot_heatmap (df a)) = map occurrence_rate (fst (calculate_occurrence_rates a))"
    by (simp add: plot_heatmap_def calculate_occurrence_rates_def occurrence_data_def
        viz_water_types_def map_concat comp_def viz_rate_eq Let_def)
  show "map length (plot_heatmap (df a))
     = replicate (length (unique (map water_body_type (df a)))) (length species_list)"
    by (simp add: plot_heatmap_def viz_water_types_def comp_def map_replicate_const)
qed

lemma fold_max_first:
  fixes key :: "'a \<Rightarrow> real"
  shows "\<exists>i \<le> length ys.
           fold (\<lambda>item best. if key item > key best then item else best) ys x = (x # ys) ! i \<and>
           (\<forall>j \<le> length ys. key ((x # ys) ! j) \<le> key ((x # ys) ! i)) \<and>
           (\<forall>j < i. key ((x # ys) ! j) < key ((x # ys) ! i))"
proof (induction ys rule: rev_induct)
  case Nil
  show ?case by simp
next
  case (snoc y ys)
  let ?step = "\<lambda>item best. if key item > key best then item else best"
  define zs where "zs = x # ys"
  define zs' where "zs' = x # ys @ [y]"
  from snoc obtain i where i: "i \<le> length ys" "fold ?step ys x = zs ! i"
    "\<forall>j \<le> length ys. key (zs ! j) \<le> key (zs ! i)"
    "\<forall>j < i. key (zs ! j) < key (zs ! i)"
    unfolding zs_def by blast
  have nth_old: "zs' ! j = zs ! j" if "j \<le> length ys" for j
    unfolding zs_def zs'_def
    using that by (metis append_Cons length_Cons less_Suc_eq_le nth_append)
  have nth_new: "zs' ! Suc (length ys) = y"
    unfolding zs'_def by (metis append_Cons length_Cons nth_append_length)
  have step: "fold ?step (ys @ [y]) x = (if key y > key (zs ! i) then y else zs ! i)"
    using i(2) by simp
  show ?case
  proof (cases "key y > key (zs ! i)")
    case True
    have "fold ?step (ys @ [y]) x = zs' ! Suc (length ys)"
      using True step nth_new by simp
    moreover have "\<forall>j \<le> length (ys @ [y]). key (zs' ! j) \<le> key (zs' ! Suc (length ys))"
    proof (intro allI impI)
      fix j assume "j \<le> length (ys @ [y])"
      then consider "j \<le> length ys" | "j = Suc (length ys)" by fastforce
      then show "key (zs' ! j) \<le> key (zs' ! Suc (length ys))"
      proof cases
        case 1
        with i(3) have "key (zs ! j) \<le> key (zs ! i)" by blast
        with True show ?thesis unfolding nth_old[OF 1] nth_new by simp
      next
        case 2
        then show ?thesis by simp
      qed
    qed
    moreover have "\<forall>j < Suc (length ys). key (zs' ! j) < key (zs' ! Suc (length ys))"
    proof (intro allI impI)
      fix j assume "j < Suc (length ys)"
      then have j: "j \<le> length ys" by simp
      with i(3) have "key (zs ! j) \<le> key (zs ! i)" by blast
      with True show "key (zs' ! j) < key (zs' ! Suc (length ys))"
        unfolding nth_old[OF j] nth_new by simp
    qed
    ultimately have "Suc (length ys) \<le> length (ys @ [y]) \<and>
        fold ?step (ys @ [y]) x = zs' ! Suc (length ys) \<and>
        (\<forall>j \<le> length (ys @ [y]). key (zs' ! j) \<le> key (zs' ! Suc (length ys))) \<and>
        (\<forall>j < Suc (length ys). key (zs' ! j) < key (zs' ! Suc (length ys)))"
      by simp
    then show ?thesis unfolding zs'_def by blast
  next
    case False
    have "fold ?step (ys @ [y]) x = zs' ! i"
      using False step nth_old[OF i(1)] by simp
    moreover have "\<forall>j \<le> length (ys @ [y]). key (zs' ! j) \<le> key (zs' ! i)"
    proof (intro allI impI)
      fix j assume "j \<le> length (ys @ [y])"
      then consider "j \<le> length ys" | "j = Suc (length ys)" by fastforce
      then show "key (zs' ! j) \<le> key (zs' ! i)"
      proof cases
        case 1
        with i(3) show ?thesis unfolding nth_old[OF 1] nth_old[OF i(1)] by blast
      next
        case 2
        with False show ?thesis unfolding 2 nth_new nth_old[OF i(1)] by simp
      qed
    qed
    moreover have "\<forall>j < i. key (zs' ! j) < key (zs' ! i)"
    proof (intro allI impI)
      fix j assume "j < i"
      with i(1) have j: "j \<le> length ys" by simp
      from i(4) \<open>j < i\<close> show "key (zs' ! j) < key (zs' ! i)"
        unfolding nth_old[OF j] nth_old[OF i(1)] by blast
    qed
    ultimately have "i \<le> length (ys @ [y]) \<and>
        fold ?step (ys @ [y]) x = zs' ! i \<and>
        (\<forall>j \<le> length (ys @ [y]). key (zs' ! j) \<le> key (zs' ! i)) \<and>
        (\<forall>j < i. key (zs' ! j) < key (zs' ! i))"
      using i(1) by simp
    then show ?thesis unfolding zs'_def by blast
  qed
qed

lemma py_max_first:
  fixes key :: "'a \<Rightarrow> real"
  assumes "xs \<noteq> []"
  shows "\<exists>i. py_max key xs = Inr (xs ! i) \<and> first_max_index (map key xs) i"
proof -
  from assms obtain x ys where xs: "xs = x # ys" by (cases xs) auto
  from fold_max_first[of ys key x] obtain i where i: "i \<le> length ys"
    "fold (\<lambda>item best. if key item > key best then item else best) ys x = xs ! i"
    "\<forall>j \<le> length ys. key (xs ! j) \<le> key (xs ! i)"
    "\<forall>j < i. key (xs ! j) < key (xs ! i)"
    unfolding xs by blast
  have len: "length xs = Suc (length ys)" by (simp add: xs)
  have km: "map key xs ! j = key (xs ! j)" if "j < length xs" for j
    using that by (rule nth_map)
  have "py_max key xs = Inr (xs ! i)" using i(2) by (simp add: xs)
  moreover have "first_max_index (map key xs) i"
    unfolding first_max_index_def
  proof (intro conjI allI impI)
    show "i < length (map key xs)" using i(1) len by simp
  next
    fix j assume "j < length (map key xs)"
    then have j: "j < length xs" by simp
    then have "j \<le> length ys" using len by simp
    with i(3) have "key (xs ! j) \<le> key (xs ! i)" by blast
    then show "map key xs ! j \<le> map key xs ! i"
      using km[OF j] km[of i] i(1) len by simp
  next
    fix j assume ji: "j < i"
    then have j: "j < length xs" using i(1) len by simp
    from i(4) ji have "key (xs ! j) < key (xs ! i)" by blast
    then show "map key xs ! j < map key xs ! i"
      using km[OF j] km[of i] i(1) len by simp
  qed
  ultimately show ?thesis by blast
qed

lemma summarize_species_first_max:
  assumes "d \<noteq> []"
  shows "\<exists>i pref. summarize_species (occurrence_data d) sp = Inr pref \<and>
           first_max_index (species_rates d sp) i \<and>
           preferred_habitat pref = unique (map water_body_type d) ! i \<and>
           preference_rate pref = species_rates d sp ! i"
proof -
  let ?ws = "unique (map water_body_type d)"
  let ?xs = "map (\<lambda>w. occurrence_entry d w sp) ?ws"
  have ne: "?xs \<noteq> []" using assms by (simp add: unique_Nil_iff)
  from py_max_first[OF ne, of occurrence_rate]
  obtain i where i: "py_max occurrence_rate ?xs = Inr (?xs ! i)"
    "first_max_index (map occurrence_rate ?xs) i"
    by blast
  have rates: "map occurrence_rate ?xs = species_rates d sp"
    by (simp add: species_rates_def comp_def)
  from i(2) have lt: "i < length ?ws" by (simp add: first_max_index_def)
  have xi: "?xs ! i = occurrence_entry d (?ws ! i) sp" using lt by simp
  have "summarize_species (occurrence_data d) sp =
          Inr \<lparr>preferred_habitat = occ_water_body_type (?xs ! i),
               preference_rate = occurrence_rate (?xs ! i)\<rparr>"
    using i(1) by (simp add: summarize_species_def species_data_eq Let_def)
  moreover have "occ_water_body_type (?xs ! i) = ?ws ! i"
    unfolding xi by (simp add: occurrence_entry_def Let_def)
  moreover have "occurrence_rate (?xs ! i) = species_rates d sp ! i"
    unfolding xi using lt by (simp add: species_rates_def)
  ultimately show ?thesis using i(2) unfolding rates by auto
qed

lemma summary_loop_Inr:
  assumes "\<forall>sp \<in> set sps. summarize_species occ sp = Inr (pref sp)"
  shows "summary_loop occ sps acc = Inr (acc @ map (\<lambda>sp. (sp, pref sp)) sps)"
  using assms by (induction sps arbitrary: acc) auto

text \<open>
  C3. On a non-empty dataset whose occurrence rates have been computed,
  \<^verbatim>\<open>summarize_findings\<close> returns one entry per species, and the preferred habitat of
  a species is the habitat at the first index of the maximum of the species' rates,
  the habitats being listed in order of first appearance in the dataset: no rate is
  greater, and every earlier one is strictly smaller.
\<close>

theorem preferred_habitat_first_maximum:
  assumes "res_occurrence_rates a = Some (occurrence_data (df a))" and "df a \<noteq> []"
  shows "\<exists>summary a'. summarize_findings a = Inr (summary, a') \<and>
           map fst summary = species_list \<and>
           (\<forall>sp pref. (sp, pref) \<in> set summary \<longrightarrow>
              (\<exists>i. first_max_index (species_rates (df a) sp) i \<and>
                   preferred_habitat pref = unique (map water_body_type (df a)) ! i \<and>
                   preference_rate pref = species_rates (df a) sp ! i))"
proof -
  let ?d = "df a"
  define good where "good = (\<lambda>sp (pref :: preference). \<exists>i. first_max_index (species_rates ?d sp) i \<and>
      preferred_habitat pref = unique (map water_body_type ?d) ! i \<and>
      preference_rate pref = species_rates ?d sp ! i)"
  have "\<forall>sp. \<exists>pref. summarize_species (occurrence_data ?d) sp = Inr pref \<and> good sp pref"
    using summarize_species_first_max[OF assms(2)] unfolding good_def by blast
  then obtain pref where pref:
    "\<And>sp. summarize_species (occurrence_data ?d) sp = Inr (pref sp)"
    "\<And>sp. good sp (pref sp)"
    by metis
  let ?summary = "map (\<lambda>sp. (sp, pref sp)) species_list"
  have loop: "summary_loop (occurrence_data ?d) species_list [] = Inr ?summary"
    using summary_loop_Inr[of species_list "occurrence_data ?d" pref "[]"] pref(1) by simp
  have "summarize_findings a = Inr (?summary, a\<lparr>res_summary := Some ?summary\<rparr>)"
    using assms(1) loop by (simp add: summarize_findings_def)
  moreover have "map fst ?summary = species_list" by (simp add: comp_def)
  moreover have "\<forall>sp p. (sp, p) \<in> set ?summary \<longrightarrow> good sp p"
    using pref(2) by auto
  ultimately show ?thesis unfolding good_def by blast
qed

lemma sample_9_summary:
  "summarize_findings sample_9_ready =
     Inr ([(RGS, \<lparr>preferred_habitat = ''A'', preference_rate = 100\<rparr>),
           (RES, \<lparr>preferred_habitat = ''B'', preference_rate = 200 / 3\<rparr>),
           (PH, \<lparr>preferred_habitat = ''C'', preference_rate = 100\<rparr>)],
          sample_9_ready\<lparr>res_summary :=
            Some [(RGS, \<lparr>preferred_habitat = ''A'', preference_rate = 100\<rparr>),
                  (RES, \<lparr>preferred_habitat = ''B'', preference_rate = 200 / 3\<rparr>),
                  (PH, \<lparr>preferred_habitat = ''C'', preference_rate = 100\<rparr>)]\<rparr>)"
  by (simp add: summarize_findings_def sample_9_ready_def calculate_occurrence_rates_def
      init_analysis_def sample_9_occurrence_data Let_def species_list_def summarize_species_def)

lemma sample_9_rates_RES: "species_rates sample_9 RES = [200 / 3, 200 / 3, 0]"
  by (simp add: species_rates_def sample_9_def mk_row_def occurrence_entry_def habitat_subset_def)

lemma sample_9_unique: "unique (map water_body_type sample_9) = [''B'', ''A'', ''C'']"
  by (simp add: sample_9_def mk_row_def)

text \<open>
  The theorem at the nine-row sample: RES has the same rate in B and A, and B, which
  appears first in the dataset, is preferred.
\<close>

theorem preferred_habitat_first_maximum_witness:
  "res_occurrence_rates sample_9_ready = Some (occurrence_data (df sample_9_ready)) \<and>
   df sample_9_ready \<noteq> [] \<and>
   (\<exists>summary a'. summarize_findings sample_9_ready = Inr (summary, a') \<and>
      map fst summary = [RGS, RES, PH] \<and>
      map (preferred_habitat \<circ> snd) summary = [''A'', ''B'', ''C'']) \<and>
   species_rates (df sample_9_ready) RES = [200 / 3, 200 / 3, 0] \<and>
   unique (map water_body_type (df sample_9_ready)) = [''B'', ''A'', ''C''] \<and>
   (\<exists>i. first_max_index (species_rates (df sample_9_ready) RES) i \<and>
        ''B'' = unique (map water_body_type (df sample_9_ready)) ! i)"
proof -
  have d: "df sample_9_ready = sample_9"
    by (simp add: sample_9_ready_def calculate_occurrence_rates_def init_analysis_def Let_def)
  have h1: "res_occurrence_rates sample_9_ready = Some (occurrence_data (df sample_9_ready))"
    by (simp add: sample_9_ready_def calculate_occurrence_rates_def init_analysis_def Let_def)
  have h2: "df sample_9_ready \<noteq> []" by (simp add: d sample_9_def)
  from preferred_habitat_first_maximum[OF h1 h2]
  obtain summary a' where s: "summarize_findings sample_9_ready = Inr (summary, a')"
    "map fst summary = species_list"
    "\<forall>sp pref. (sp, pref) \<in> set summary \<longrightarrow>
       (\<exists>i. first_max_index (species_rates (df sample_9_ready) sp) i \<and>
            preferred_habitat pref = unique (map water_body_type (df sample_9_ready)) ! i \<and>
            preference_rate pref = species_rates (df sample_9_ready) sp ! i)"
    by blast
  from s(1) have summary:
    "summary = [(RGS, \<lparr>preferred_habitat = ''A'', preference_rate = 100\<rparr>),
                (RES, \<lparr>preferred_habitat = ''B'', preference_rate = 200 / 3\<rparr>),
                (PH, \<lparr>preferred_habitat = ''C'', preference_rate = 100\<rparr>)]"
    by (simp add: sample_9_summary)
  then have "(RES, \<lparr>preferred_habitat = ''B'', preference_rate = 200 / 3\<rparr>) \<in> set summary"
    by simp
  with s(3) have first: "\<exists>i. first_max_index (species_rates (df sample_9_ready) RES) i \<and>
        ''B'' = unique (map water_body_type (df sample_9_ready)) ! i"
    by fastforce
  have "\<exists>summary a'. summarize_findings sample_9_ready = Inr (summary, a') \<and>
      map fst summary = [RGS, RES, PH] \<and>
      map (preferred_habitat \<circ> snd) summary = [''A'', ''B'', ''C'']"
    using s(1) summary by simp
  with h1 h2 first show ?thesis
    by (simp add: d sample_9_rates_RES sample_9_unique)
qed

section \<open>The analyzer: habitat descriptive statistics\<close>

lemma series_stats_as_specified:
  assumes "xs \<noteq> []"
  shows "stats_as_specified xs (series_mean xs) (series_std xs)"
proof -
  from assms have pos: "1 \<le> length xs" by (cases xs) auto
  have "series_mean xs = Some (sample_mean xs)"
    using assms by (simp add: series_mean_def sample_mean_def)
  moreover have "series_std xs = None" if "length xs = 1"
    using that by (simp add: series_std_def)
  moreover have "series_std xs = Some (sample_std_unbiased xs)" if "length xs \<noteq> 1"
  proof -
    from that pos have gt: "1 < length xs" by simp
    have "real (length xs - 1) = real (length xs) - 1"
      using pos by (simp add: of_nat_diff)
    then show ?thesis
      using gt by (simp add: series_std_def sample_std_unbiased_def sample_mean_def
          Let_def power2_commute)
  qed
  ultimately show ?thesis by (simp add: stats_as_specified_def)
qed

text \<open>
  C7. \<^verbatim>\<open>habitat_similarity\<close> has one entry per habitat type, in order of first
  appearance; the habitat's subset is never empty, and for each of the four covariates
  the reported mean is the sample mean and the reported standard deviation is the
  one with the n - 1 divisor, except on a subset of exactly one row, where it is NaN
  (\<open>None\<close>) and not zero.
\<close>

theorem habitat_similarity_stats:
  "map fst (fst (habitat_similarity a)) = unique (map water_body_type (df a)) \<and>
   (\<forall>(w, st) \<in> set (fst (habitat_similarity a)).
      habitat_subset (df a) w \<noteq> [] \<and>
      stats_as_specified (map salinity_ppt (habitat_subset (df a) w))
        (salinity_mean st) (salinity_std st) \<and>
      stats_as_specified (map pH (habitat_subset (df a) w)) (pH_mean st) (pH_std st) \<and>
      stats_as_specified (map temperature_C (habitat_subset (df a) w))
        (temperature_mean st) (temperature_std st) \<and>
      stats_as_specified (map dissolved_oxygen_mg_L (habitat_subset (df a) w))
        (dissolved_oxygen_mean st) (dissolved_oxygen_std st))"
proof (intro conjI ballI)
  show "map fst (fst (habitat_similarity a)) = unique (map water_body_type (df a))"
    by (simp add: habitat_similarity_def Let_def comp_def)
next
  fix p assume "p \<in> set (fst (habitat_similarity a))"
  then obtain w where w: "w \<in> set (map water_body_type (df a))"
    and p: "p = (w, habitat_stats_entry (df a) w)"
    by (auto simp: habitat_similarity_def Let_def set_unique)
  have ne: "habitat_subset (df a) w \<noteq> []" by (rule habitat_subset_nonempty[OF w])
  then have ne': "map f (habitat_subset (df a) w) \<noteq> []" for f :: "observation \<Rightarrow> real"
    by simp
  show "case p of (w, st) \<Rightarrow>
      habitat_subset (df a) w \<noteq> [] \<and>
      stats_as_specified (map salinity_ppt (habitat_subset (df a) w))
        (salinity_mean st) (salinity_std st) \<and>
      stats_as_specified (map pH (habitat_subset (df a) w)) (pH_mean st) (pH_std st) \<and>
      stats_as_specified (map temperature_C (habitat_subset (df a) w))
        (temperature_mean st) (temperature_std st) \<and>
      stats_as_specified (map dissolved_oxygen_mg_L (habitat_subset (df a) w))
        (dissolved_oxygen_mean st) (dissolved_oxygen_std st)"
    unfolding p using ne series_stats_as_specified[OF ne']
    by (simp add: habitat_stats_entry_def Let_def)
qed

lemma sample_4_subset_B: "habitat_subset sample_4 ''B'' = [mk_row 1 ''B'' 0 1 1]"
  by (simp add: habitat_subset_def sample_4_def mk_row_def)

lemma sample_4_subset_A:
  "habitat_subset sample_4 ''A'' = [mk_row 3 ''A'' 1 1 0, mk_row 6 ''A'' 1 0 1, mk_row 9 ''A'' 0 0 1]"
  by (simp add: habitat_subset_def sample_4_def mk_row_def)

lemma sample_4_similarity:
  "fst (habitat_similarity (init_analysis sample_4)) =
     [(''B'', habitat_stats_entry sample_4 ''B''), (''A'', habitat_stats_entry sample_4 ''A'')]"
  by (simp add: habitat_similarity_def init_analysis_def Let_def sample_4_def mk_row_def)

lemma sqrt_9: "sqrt 9 = 3"
proof -
  have "sqrt ((3::real)\<^sup>2) = 3" by simp
  then show ?thesis by simp
qed

text \<open>
  The theorem at a four-row sample: habitat B has one row (mean 1, no standard
  deviation), habitat A has temperatures 3, 6, 9 (mean 6, standard deviation 3).
\<close>

theorem habitat_similarity_stats_witness:
  "(''B'', habitat_stats_entry sample_4 ''B'')
     \<in> set (fst (habitat_similarity (init_analysis sample_4))) \<and>
   length (habitat_subset sample_4 ''B'') = 1 \<and>
   temperature_mean (habitat_stats_entry sample_4 ''B'') = Some 1 \<and>
   temperature_std (habitat_stats_entry sample_4 ''B'') = None \<and>
   stats_as_specified (map temperature_C (habitat_subset sample_4 ''B'')) (Some 1) None \<and>
   (''A'', habitat_stats_entry sample_4 ''A'')
     \<in> set (fst (habitat_similarity (init_analysis sample_4))) \<and>
   length (habitat_subset sample_4 ''A'') = 3 \<and>
   temperature_mean (habitat_stats_entry sample_4 ''A'') = Some 6 \<and>
   temperature_std (habitat_stats_entry sample_4 ''A'') = Some 3 \<and>
   stats_as_specified (map temperature_C (habitat_subset sample_4 ''A'')) (Some 6) (Some 3)"
proof -
  let ?a = "init_analysis sample_4"
  have d: "df ?a = sample_4" by (simp add: init_analysis_def)
  have memB: "(''B'', habitat_stats_entry sample_4 ''B'') \<in> set (fst (habitat_similarity ?a))"
    and memA: "(''A'', habitat_stats_entry sample_4 ''A'') \<in> set (fst (habitat_similarity ?a))"
    by (simp_all add: sample_4_similarity)
  have evB: "temperature_mean (habitat_stats_entry sample_4 ''B'') = Some 1"
    "temperature_std (habitat_stats_entry sample_4 ''B'') = None"
    by (simp_all add: habitat_stats_entry_def sample_4_subset_B mk_row_def series_mean_def
        series_std_def)
  have evA: "temperature_mean (habitat_stats_entry sample_4 ''A'') = Some 6"
    "temperature_std (habitat_stats_entry sample_4 ''A'') = Some 3"
    by (simp_all add: habitat_stats_entry_def sample_4_subset_A mk_row_def series_mean_def
        series_std_def power2_eq_square sqrt_9)
  from habitat_similarity_stats[of ?a] memB memA
  have "stats_as_specified (map temperature_C (habitat_subset sample_4 ''B''))
          (temperature_mean (habitat_stats_entry sample_4 ''B''))
          (temperature_std (habitat_stats_entry sample_4 ''B''))"
    and "stats_as_specified (map temperature_C (habitat_subset sample_4 ''A''))
          (temperature_mean (habitat_stats_entry sample_4 ''A''))
          (temperature_std (habitat_stats_entry sample_4 ''A''))"
    unfolding d by fastforce+
  then show ?thesis
    using memB memA evB evA by (simp add: sample_4_subset_B sample_4_subset_A)
qed

section \<open>The analyzer: contingency tables and the chi-square test\<close>

lemma sum_indicator_pair:
  assumes "distinct cs" "c0 \<in> set cs"
  shows "sum_list (map (\<lambda>c. if (i, c0) = (r, c) then 1 else 0) cs) = (if i = r then 1 else (0::int))"
proof (cases "i = r")
  case True
  then have "sum_list (map (\<lambda>c. if (i, c0) = (r, c) then 1 else 0) cs)
           = sum_list (map (\<lambda>c. if c0 = c then 1 else (0::int)) cs)"
    by simp
  with True show ?thesis using sum_indicator[OF assms, of 1] by simp
next
  case False
  then show ?thesis by simp
qed

lemma crosstab_row_total:
  assumes "distinct cs" "g ` set d \<subseteq> set cs"
  shows "sum_list (map (\<lambda>c. int (count_list (zip (map f d) (map g d)) (r, c))) cs)
           = int (count_list (map f d) r)"
  using assms(2)
proof (induction d)
  case Nil
  show ?case by simp
next
  case (Cons x d)
  have "sum_list (map (\<lambda>c. int (count_list (zip (map f (x # d)) (map g (x # d))) (r, c))) cs)
      = sum_list (map (\<lambda>c. (if (f x, g x) = (r, c) then 1 else 0)
                             + int (count_list (zip (map f d) (map g d)) (r, c))) cs)"
    by (intro arg_cong[where f=sum_list] map_cong) auto
  also have "\<dots> = (if f x = r then 1 else 0) + int (count_list (map f d) r)"
    using Cons sum_indicator_pair[OF assms(1), of "g x" "f x" r]
    by (simp add: sum_list_addf)
  finally show ?case by simp
qed

lemma sum_indicator_pair':
  assumes "distinct rs" "r0 \<in> set rs"
  shows "sum_list (map (\<lambda>r. if (r0, j) = (r, c) then 1 else 0) rs) = (if j = c then 1 else (0::int))"
proof (cases "j = c")
  case True
  then have "sum_list (map (\<lambda>r. if (r0, j) = (r, c) then 1 else 0) rs)
           = sum_list (map (\<lambda>r. if r0 = r then 1 else (0::int)) rs)"
    by simp
  with True show ?thesis using sum_indicator[OF assms, of 1] by simp
next
  case False
  then show ?thesis by simp
qed

lemma crosstab_col_total:
  assumes "distinct rs" "f ` set d \<subseteq> set rs"
  shows "sum_list (map (\<lambda>r. int (count_list (zip (map f d) (map g d)) (r, c))) rs)
           = int (count_list (map g d) c)"
  using assms(2)
proof (induction d)
  case Nil
  show ?case by simp
next
  case (Cons x d)
  have "sum_list (map (\<lambda>r. int (count_list (zip (map f (x # d)) (map g (x # d))) (r, c))) rs)
      = sum_list (map (\<lambda>r. (if (f x, g x) = (r, c) then 1 else 0)
                             + int (count_list (zip (map f d) (map g d)) (r, c))) rs)"
    by (intro arg_cong[where f=sum_list] map_cong) auto
  also have "\<dots> = (if g x = c then 1 else 0) + int (count_list (map g d) c)"
    using Cons sum_indicator_pair'[OF assms(1), of "f x" "g x" c]
    by (simp add: sum_list_addf)
  finally show ?case by simp
qed

lemma count_total:
  assumes "distinct rs" "set xs \<subseteq> set rs"
  shows "sum_list (map (\<lambda>r. int (count_list xs r)) rs) = int (length xs)"
  using assms(2)
proof (induction xs)
  case Nil
  show ?case by simp
next
  case (Cons x xs)
  have "sum_list (map (\<lambda>r. int (count_list (x # xs) r)) rs)
      = sum_list (map (\<lambda>r. (if x = r then 1 else 0) + int (count_list xs r)) rs)"
    by (intro arg_cong[where f=sum_list] map_cong) auto
  also have "\<dots> = 1 + int (length xs)"
    using Cons sum_indicator[OF assms(1), of x 1] by (simp add: sum_list_addf)
  finally show ?case by simp
qed

lemma col_sums_table:
  "col_sums (length cs) (map (\<lambda>r. map (G r) cs) rs)
     = map (\<lambda>c. sum_list (map (\<lambda>r. G r c) rs)) cs"
proof -
  have "col_sums (length cs) (map (\<lambda>r. map (G r) cs) rs)
      = map (\<lambda>j. sum_list (map (\<lambda>r. G r (cs ! j)) rs)) [0..<length cs]"
    by (simp add: col_sums_def comp_def)
  also have "\<dots> = map (\<lambda>c. sum_list (map (\<lambda>r. G r c) rs)) (map ((!) cs) [0..<length cs])"
    by (simp add: comp_def)
  finally show ?thesis by (simp add: map_nth)
qed

lemma row_sums_table:
  "row_sums (map (\<lambda>r. map (G r) cs) rs) = map (\<lambda>r. sum_list (map (G r) cs)) rs"
  by (simp add: row_sums_def comp_def)

lemma pearson_nonneg:
  assumes "\<And>row e. row \<in> set f_exp \<Longrightarrow> e \<in> set row \<Longrightarrow> 0 \<le> e"
  shows "0 \<le> pearson f_obs f_exp"
  unfolding pearson_def
proof (rule sum_list_nonneg)
  fix x assume "x \<in> set (concat (map2 (map2 (\<lambda>ob ex. (ob - ex)\<^sup>2 / ex)) f_obs f_exp))"
  then obtain orow erow ob ex where rows: "(orow, erow) \<in> set (zip f_obs f_exp)"
    and cell: "(ob, ex) \<in> set (zip orow erow)"
    and xv: "x = (ob - ex)\<^sup>2 / ex"
    by auto
  from rows have "erow \<in> set f_exp" by (rule set_zip_rightD)
  moreover from cell have "ex \<in> set erow" by (rule set_zip_rightD)
  ultimately have "0 \<le> ex" by (rule assms)
  then show "0 \<le> x" unfolding xv by simp
qed

lemma crosstab_expected:
  fixes f :: "observation \<Rightarrow> string" and g :: "observation \<Rightarrow> int"
  shows "expected_freq (length (ct_columns (crosstab (map f d) (map g d))))
           (ct_cells (crosstab (map f d) (map g d)))
       = map (\<lambda>r. map (\<lambda>c. real_of_int (int (count_list (map f d) r) * int (count_list (map g d) c))
                              / real_of_int (int (length d)))
                       (sorted_list_of_set (set (map g d))))
             (sorted_list_of_set (set (map f d)))"
proof -
  define rs where "rs = sorted_list_of_set (set (map f d))"
  define cs where "cs = sorted_list_of_set (set (map g d))"
  let ?G = "\<lambda>r c. int (count_list (zip (map f d) (map g d)) (r, c))"
  have drs: "distinct rs" and dcs: "distinct cs"
    and srs: "set rs = f ` set d" and scs: "set cs = g ` set d"
    by (simp_all add: rs_def cs_def)
  have rows: "row_sums (map (\<lambda>r. map (?G r) cs) rs) = map (\<lambda>r. int (count_list (map f d) r)) rs"
    unfolding row_sums_table
    using crosstab_row_total[OF dcs, of g d f] scs by simp
  have cols: "col_sums (length cs) (map (\<lambda>r. map (?G r) cs) rs)
                = map (\<lambda>c. int (count_list (map g d) c)) cs"
    unfolding col_sums_table
    using crosstab_col_total[OF drs, of f d g] srs by simp
  have tot: "sum_list (map (\<lambda>r. int (count_list (map f d) r)) rs) = int (length d)"
    using count_total[OF drs, of "map f d"] srs by simp
  show ?thesis
    unfolding crosstab_def Let_def rs_def[symmetric] cs_def[symmetric]
    by (simp add: expected_freq_def rows cols tot comp_def)
qed

lemma crosstab_shape:
  "ct_index (crosstab idx cols) = sorted_list_of_set (set idx)"
  "ct_columns (crosstab idx cols) = sorted_list_of_set (set cols)"
  by (simp_all add: crosstab_def Let_def)

lemma crosstab_cells_nonneg: "\<not> list_ex (list_ex (\<lambda>x. x < 0)) (ct_cells (crosstab idx cols))"
  by (auto simp: crosstab_def Let_def list_ex_iff)

lemma crosstab_expected_pos:
  fixes f :: "observation \<Rightarrow> string" and g :: "observation \<Rightarrow> int"
  assumes "row \<in> set (expected_freq (length (ct_columns (crosstab (map f d) (map g d))))
                        (ct_cells (crosstab (map f d) (map g d))))"
      and "e \<in> set row"
  shows "0 < e"
proof -
  define E where "E = (\<lambda>r c. real_of_int (int (count_list (map f d) r) * int (count_list (map g d) c))
                  / real_of_int (int (length d)))"
  from assms(1) have "row \<in> set (map (\<lambda>r. map (E r) (sorted_list_of_set (set (map g d))))
                                   (sorted_list_of_set (set (map f d))))"
    unfolding crosstab_expected E_def .
  then obtain r where r': "r \<in> set (sorted_list_of_set (set (map f d)))"
    and row: "row = map (E r) (sorted_list_of_set (set (map g d)))"
    by auto
  from assms(2) obtain c where c': "c \<in> set (sorted_list_of_set (set (map g d)))"
    and e': "e = E r c"
    unfolding row by auto
  from r' have r: "r \<in> set (map f d)" by simp
  from c' have c: "c \<in> set (map g d)" by simp
  note e = e'[unfolded E_def]
  from r have "0 < count_list (map f d) r"
    using count_list_0_iff[of "map f d" r] by linarith
  moreover from c have "0 < count_list (map g d) c"
    using count_list_0_iff[of "map g d" c] by linarith
  moreover from r have "0 < length d" by auto
  ultimately show ?thesis unfolding e by simp
qed

lemma dof_product: "int (r * c) - int (r + c) + 2 - 1 = (int r - 1) * (int c - 1)"
  by (simp add: algebra_simps)

lemma chi2_contingency_crosstab:
  fixes f :: "observation \<Rightarrow> string" and g :: "observation \<Rightarrow> int"
  assumes "d \<noteq> []"
  shows "\<exists>chi2 ex.
           chi2_contingency chi2_sf (crosstab (map f d) (map g d))
             = Inr (chi2,
                    (if (int (length (sorted_list_of_set (set (map f d)))) - 1)
                         * (int (length (sorted_list_of_set (set (map g d)))) - 1) = 0
                     then 1
                     else chi2_sf chi2
                            ((int (length (sorted_list_of_set (set (map f d)))) - 1)
                              * (int (length (sorted_list_of_set (set (map g d)))) - 1))),
                    (int (length (sorted_list_of_set (set (map f d)))) - 1)
                      * (int (length (sorted_list_of_set (set (map g d)))) - 1),
                    ex) \<and>
           0 \<le> chi2 \<and>
           ((int (length (sorted_list_of_set (set (map f d)))) - 1)
              * (int (length (sorted_list_of_set (set (map g d)))) - 1) = 0 \<longrightarrow> chi2 = 0)"
proof -
  define tab where "tab = crosstab (map f d) (map g d)"
  define r where "r = length (ct_index tab)"
  define c where "c = length (ct_columns tab)"
  define expected where "expected = expected_freq c (ct_cells tab)"
  define dof where "dof = (int r - 1) * (int c - 1)"
  have r_eq: "r = length (sorted_list_of_set (set (map f d)))"
    and c_eq: "c = length (sorted_list_of_set (set (map g d)))"
    by (simp_all add: r_def c_def tab_def crosstab_shape)
  have "set (sorted_list_of_set (set (map f d))) \<noteq> {}"
    "set (sorted_list_of_set (set (map g d))) \<noteq> {}"
    using assms by simp_all
  then have "r \<noteq> 0" "c \<noteq> 0" unfolding r_eq c_eq by auto
  then have size: "r * c \<noteq> 0" by simp
  have nonneg: "\<not> list_ex (list_ex (\<lambda>x. x < 0)) (ct_cells tab)"
    unfolding tab_def by (rule crosstab_cells_nonneg)
  have pos: "0 < e" if "row \<in> set expected" "e \<in> set row" for row e
    using that crosstab_expected_pos[of row f d g e]
    unfolding expected_def c_def tab_def by simp
  then have nozero: "\<not> list_ex (list_ex (\<lambda>x. x = 0)) expected"
    by (fastforce simp: list_ex_iff)
  have p0: "0 \<le> pearson f_obs expected" for f_obs
    by (rule pearson_nonneg) (use pos in fastforce)
  have dof': "int (r * c) - int (r + c) + 2 - 1 = dof"
    unfolding dof_def by (rule dof_product)
  show ?thesis
  proof (cases "dof = 0")
    case True
    have "chi2_contingency chi2_sf tab = Inr (0, 1, dof, expected)"
      unfolding chi2_contingency_def dof_product Let_def r_def[symmetric] c_def[symmetric]
        expected_def[symmetric] dof_def[symmetric]
      using nonneg size nozero True by simp
    then show ?thesis
      using True unfolding tab_def dof_def r_eq c_eq by simp
  next
    case False
    define f_obs where "f_obs =
      (if dof = 1 then map2 (map2 yates) (map (map real_of_int) (ct_cells tab)) expected
       else map (map real_of_int) (ct_cells tab))"
    have "chi2_contingency chi2_sf tab
            = Inr (pearson f_obs expected, chi2_sf (pearson f_obs expected) dof, dof, expected)"
      unfolding chi2_contingency_def dof_product Let_def r_def[symmetric] c_def[symmetric]
        expected_def[symmetric] dof_def[symmetric] f_obs_def[symmetric]
      using nonneg size nozero False by simp
    then show ?thesis
      using False p0[of f_obs] unfolding tab_def dof_def r_eq c_eq by simp
  qed
qed

lemma chi2_contingency_empty:
  "chi2_contingency chi2_sf (crosstab [] []) = Inl ValueError"
  by (simp add: chi2_contingency_def crosstab_def Let_def)

lemma contingency_species_ok:
  assumes "d \<noteq> []"
  shows "\<exists>res. contingency_species chi2_sf d sp = Inr res \<and> chi2_result_ok chi2_sf d sp res"
proof -
  let ?tab = "crosstab (map water_body_type d) (map (present sp) d)"
  define dof where "dof = (int (length (sorted_list_of_set (set (map water_body_type d)))) - 1)
                        * (int (length (sorted_list_of_set (set (map (present sp) d)))) - 1)"
  from chi2_contingency_crosstab[OF assms, of chi2_sf water_body_type "present sp"]
  obtain chi2 ex where c:
    "chi2_contingency chi2_sf ?tab = Inr (chi2, (if dof = 0 then 1 else chi2_sf chi2 dof), dof, ex)"
    "0 \<le> chi2" "dof = 0 \<longrightarrow> chi2 = 0"
    unfolding dof_def by blast
  define res where "res = \<lparr>chi2_table = ?tab, chi2_statistic = chi2,
      p_value = (if dof = 0 then 1 else chi2_sf chi2 dof), degrees_of_freedom = dof,
      significant = ((if dof = 0 then 1 else chi2_sf chi2 dof) < 0.05)\<rparr>"
  have "contingency_species chi2_sf d sp = Inr res"
    using c(1) by (simp add: contingency_species_def Let_def res_def)
  moreover have "chi2_result_ok chi2_sf d sp res"
    using c(2,3) by (simp add: chi2_result_ok_def res_def crosstab_shape dof_def)
  ultimately show ?thesis by blast
qed

lemma contingency_species_empty: "contingency_species chi2_sf [] sp = Inl ValueError"
  by (simp add: contingency_species_def chi2_contingency_empty)

lemma contingency_loop_Inr:
  assumes "\<forall>sp \<in> set sps. contingency_species chi2_sf d sp = Inr (res sp)"
  shows "contingency_loop chi2_sf d sps acc = Inr (acc @ map (\<lambda>sp. (sp, res sp)) sps)"
  using assms by (induction sps arbitrary: acc) auto

lemma contingency_analysis_ok:
  assumes "df a \<noteq> []"
  shows "\<exists>res. contingency_analysis chi2_sf a
                 = Inr (map (\<lambda>sp. (sp, res sp)) species_list,
                        a\<lparr>res_contingency_analysis := Some (map (\<lambda>sp. (sp, res sp)) species_list)\<rparr>) \<and>
               (\<forall>sp. contingency_species chi2_sf (df a) sp = Inr (res sp)) \<and>
               (\<forall>sp. chi2_result_ok chi2_sf (df a) sp (res sp))"
proof -
  have "\<forall>sp. \<exists>r. contingency_species chi2_sf (df a) sp = Inr r \<and> chi2_result_ok chi2_sf (df a) sp r"
    using contingency_species_ok[OF assms] by blast
  then obtain res where res: "\<And>sp. contingency_species chi2_sf (df a) sp = Inr (res sp)"
    "\<And>sp. chi2_result_ok chi2_sf (df a) sp (res sp)"
    by metis
  have "contingency_loop chi2_sf (df a) species_list [] = Inr (map (\<lambda>sp. (sp, res sp)) species_list)"
    using contingency_loop_Inr[of species_list chi2_sf "df a" res "[]"] res(1) by simp
  then have "contingency_analysis chi2_sf a
                 = Inr (map (\<lambda>sp. (sp, res sp)) species_list,
                        a\<lparr>res_contingency_analysis := Some (map (\<lambda>sp. (sp, res sp)) species_list)\<rparr>)"
    by (simp add: contingency_analysis_def)
  with res show ?thesis by blast
qed

lemma contingency_analysis_empty:
  assumes "df a = []"
  shows "contingency_analysis chi2_sf a = Inl ValueError"
  using assms by (simp add: contingency_analysis_def species_list_def contingency_species_empty)

text \<open>
  C8. Whenever \<^verbatim>\<open>contingency_analysis\<close> succeeds, every reported statistic is
  non-negative, every reported degrees of freedom is (rows - 1) * (columns - 1) of the
  species' contingency table, and every reported p-value lies in [0, 1]. The p-value is
  1 when there are no degrees of freedom and otherwise the value of \<^verbatim>\<open>chi2.sf\<close>, a
  library function taken as a parameter and assumed to return probabilities at a
  non-negative statistic and at least one degree of freedom.
\<close>

theorem chi2_results_ranges:
  assumes sf: "probability_valued chi2_sf"
      and run: "contingency_analysis chi2_sf a = Inr (results, a')"
      and mem: "(sp, res) \<in> set results"
  shows "0 \<le> chi2_statistic res \<and> 0 \<le> p_value res \<and> p_value res \<le> 1 \<and>
         degrees_of_freedom res
           = (int (length (ct_index (chi2_table res))) - 1)
               * (int (length (ct_columns (chi2_table res))) - 1)"
proof -
  have ne: "df a \<noteq> []"
    using run contingency_analysis_empty[of a chi2_sf] by auto
  from contingency_analysis_ok[OF ne, of chi2_sf] run
  obtain R where R: "results = map (\<lambda>sp. (sp, R sp)) species_list"
    "\<And>sp. chi2_result_ok chi2_sf (df a) sp (R sp)"
    by auto
  from mem R(1) have "res = R sp" by auto
  with R(2) have ok: "chi2_result_ok chi2_sf (df a) sp res" by simp
  then have stat: "0 \<le> chi2_statistic res"
    and dof: "degrees_of_freedom res
           = (int (length (ct_index (chi2_table res))) - 1)
               * (int (length (ct_columns (chi2_table res))) - 1)"
    and tab: "chi2_table res = crosstab (map water_body_type (df a)) (map (present sp) (df a))"
    by (simp_all add: chi2_result_ok_def)
  have "1 \<le> length (ct_index (chi2_table res))" "1 \<le> length (ct_columns (chi2_table res))"
    using ne unfolding tab crosstab_shape
    by (simp_all add: Suc_le_eq card_gt_0_iff)
  then have "0 \<le> int (length (ct_index (chi2_table res))) - 1"
    "0 \<le> int (length (ct_columns (chi2_table res))) - 1"
    by linarith+
  then have "0 \<le> degrees_of_freedom res"
    unfolding dof by (rule mult_nonneg_nonneg)
  have "0 \<le> p_value res \<and> p_value res \<le> 1"
  proof (cases "degrees_of_freedom res = 0")
    case True
    with ok show ?thesis by (simp add: chi2_result_ok_def)
  next
    case False
    with \<open>0 \<le> degrees_of_freedom res\<close> have "1 \<le> degrees_of_freedom res" by simp
    with sf stat have "0 \<le> chi2_sf (chi2_statistic res) (degrees_of_freedom res) \<and>
        chi2_sf (chi2_statistic res) (degrees_of_freedom res) \<le> 1"
      unfolding probability_valued_def by blast
    with ok False show ?thesis by (simp add: chi2_result_ok_def)
  qed
  with stat dof show ?thesis by simp
qed

lemma sample_9_crosstab_RGS:
  "crosstab (map water_body_type sample_9) (map (present RGS) sample_9)
     = \<lparr>ct_index = [''A'', ''B'', ''C''], ct_columns = [0, 1],
        ct_cells = [[0, 3], [3, 0], [3, 0]]\<rparr>"
  by code_simp

lemma sample_9_chi2_RGS:
  "chi2_contingency chi2_sf \<lparr>ct_index = [''A'', ''B'', ''C''], ct_columns = [0, 1],
        ct_cells = [[0, 3], [3, 0], [3, 0]]\<rparr> = Inr (9, chi2_sf 9 2, 2, [[2, 1], [2, 1], [2, 1]])"
  by (simp add: chi2_contingency_def expected_freq_def row_sums_def col_sums_def pearson_def
      Let_def upt_rec numeral_2_eq_2)

lemma exp_sf_probability_valued: "probability_valued exp_sf"
  by (simp add: probability_valued_def exp_sf_def)

lemma sample_9_contingency_RGS:
  "contingency_species chi2_sf sample_9 RGS =
     Inr \<lparr>chi2_table = \<lparr>ct_index = [''A'', ''B'', ''C''], ct_columns = [0, 1],
                          ct_cells = [[0, 3], [3, 0], [3, 0]]\<rparr>,
          chi2_statistic = 9, p_value = chi2_sf 9 2, degrees_of_freedom = 2,
          significant = (chi2_sf 9 2 < 0.05)\<rparr>"
  unfolding contingency_species_def Let_def sample_9_crosstab_RGS sample_9_chi2_RGS
  by simp

text \<open>
  The theorem at the nine-row sample, with the survival function of two degrees of
  freedom: RGS, present in habitat A only, has statistic 9 and p-value exp (- 9 / 2).
\<close>

theorem chi2_results_ranges_witness:
  "probability_valued exp_sf \<and>
   (\<exists>results a' res.
      contingency_analysis exp_sf (init_analysis sample_9) = Inr (results, a') \<and>
      (RGS, res) \<in> set results \<and>
      chi2_table res = \<lparr>ct_index = [''A'', ''B'', ''C''], ct_columns = [0, 1],
                         ct_cells = [[0, 3], [3, 0], [3, 0]]\<rparr> \<and>
      chi2_statistic res = 9 \<and> p_value res = exp (- 9 / 2) \<and> degrees_of_freedom res = 2 \<and>
      0 \<le> chi2_statistic res \<and> 0 \<le> p_value res \<and> p_value res \<le> 1 \<and>
      degrees_of_freedom res
        = (int (length (ct_index (chi2_table res))) - 1)
            * (int (length (ct_columns (chi2_table res))) - 1))"
proof -
  let ?a = "init_analysis sample_9"
  have ne: "df ?a \<noteq> []" by (simp add: init_analysis_def sample_9_def)
  from contingency_analysis_ok[OF ne, of exp_sf]
  obtain R a' where run: "contingency_analysis exp_sf ?a = Inr (map (\<lambda>sp. (sp, R sp)) species_list, a')"
    and R: "\<And>sp. contingency_species exp_sf (df ?a) sp = Inr (R sp)"
    by blast
  have mem: "(RGS, R RGS) \<in> set (map (\<lambda>sp. (sp, R sp)) species_list)"
    by (simp add: species_list_def)
  have ev: "R RGS = \<lparr>chi2_table = \<lparr>ct_index = [''A'', ''B'', ''C''], ct_columns = [0, 1],
                          ct_cells = [[0, 3], [3, 0], [3, 0]]\<rparr>,
          chi2_statistic = 9, p_value = exp_sf 9 2, degrees_of_freedom = 2,
          significant = (exp_sf 9 2 < 0.05)\<rparr>"
    using R[of RGS] by (simp add: init_analysis_def sample_9_contingency_RGS)
  from chi2_results_ranges[OF exp_sf_probability_valued run mem]
  have "0 \<le> chi2_statistic (R RGS) \<and> 0 \<le> p_value (R RGS) \<and> p_value (R RGS) \<le> 1 \<and>
        degrees_of_freedom (R RGS)
          = (int (length (ct_index (chi2_table (R RGS)))) - 1)
              * (int (length (ct_columns (chi2_table (R RGS)))) - 1)" .
  moreover have "chi2_table (R RGS) = \<lparr>ct_index = [''A'', ''B'', ''C''], ct_columns = [0, 1],
                         ct_cells = [[0, 3], [3, 0], [3, 0]]\<rparr>"
    "chi2_statistic (R RGS) = 9" "p_value (R RGS) = exp (- 9 / 2)" "degrees_of_freedom (R RGS) = 2"
    by (simp_all add: ev exp_sf_def)
  ultimately show ?thesis
    using exp_sf_probability_valued run mem by blast
qed

lemma uniform_columns:
  assumes "d \<noteq> []" "\<forall>row \<in> set d. present sp row = v"
  shows "sorted_list_of_set (set (map (present sp) d)) = [v]"
proof -
  from assms have "set (map (present sp) d) = {v}" by (cases d) auto
  then show ?thesis by simp
qed

lemma chi2_result_uniform:
  assumes "d \<noteq> []" "\<forall>row \<in> set d. present sp row = v" "chi2_result_ok chi2_sf d sp res"
  shows "ct_columns (chi2_table res) = [v] \<and>
         list_all (\<lambda>cells. length cells = 1) (ct_cells (chi2_table res)) \<and>
         chi2_statistic res = 0 \<and> p_value res = 1 \<and> degrees_of_freedom res = 0 \<and>
         \<not> significant res"
proof -
  from assms(3) have tab: "chi2_table res = crosstab (map water_body_type d) (map (present sp) d)"
    unfolding chi2_result_ok_def by blast
  then have "ct_columns (chi2_table res) = sorted_list_of_set (set (map (present sp) d))"
    by (simp only: crosstab_shape(2))
  then have cols: "ct_columns (chi2_table res) = [v]"
    by (simp only: uniform_columns[OF assms(1,2)])
  have "ct_cells (chi2_table res)
          = map (\<lambda>r. map (\<lambda>c. int (count_list (zip (map water_body_type d) (map (present sp) d))
                                     (r, c)))
                         (sorted_list_of_set (set (map (present sp) d))))
                (sorted_list_of_set (set (map water_body_type d)))"
    unfolding tab by (simp only: crosstab_def Let_def contingency_table.simps)
  then have cells: "list_all (\<lambda>cells. length cells = 1) (ct_cells (chi2_table res))"
    by (simp only: uniform_columns[OF assms(1,2)]) (simp add: list_all_iff)
  from cols assms(3) have dof: "degrees_of_freedom res = 0"
    by (simp add: chi2_result_ok_def)
  with assms(3) cols cells show ?thesis by (simp add: chi2_result_ok_def)
qed

text \<open>
  C2, amended. \<^verbatim>\<open>contingency_analysis\<close> raises (a \<^verbatim>\<open>ValueError\<close>) exactly when the
  dataset has no rows. On every other dataset it returns a result for each species;
  the table has a row for each habitat type that occurs and none for one without
  observations; and for a species whose presence is the same value in every row the
  table has a single column, that of the value, and the result is statistic 0, p-value
  1, no degrees of freedom, not significant.
\<close>

theorem contingency_fails_only_on_empty:
  "(contingency_analysis chi2_sf a = Inl ValueError \<longleftrightarrow> df a = []) \<and>
   (df a \<noteq> [] \<longrightarrow>
      (\<exists>results a'. contingency_analysis chi2_sf a = Inr (results, a') \<and>
         map fst results = species_list \<and>
         (\<forall>sp res. (sp, res) \<in> set results \<longrightarrow>
            ct_index (chi2_table res) = sorted_list_of_set (set (map water_body_type (df a))) \<and>
            (\<forall>v. (\<forall>row \<in> set (df a). present sp row = v) \<longrightarrow>
               ct_columns (chi2_table res) = [v] \<and>
               list_all (\<lambda>cells. length cells = 1) (ct_cells (chi2_table res)) \<and>
               chi2_statistic res = 0 \<and> p_value res = 1 \<and> degrees_of_freedom res = 0 \<and>
               \<not> significant res))))"
proof (intro conjI impI)
  show "contingency_analysis chi2_sf a = Inl ValueError \<longleftrightarrow> df a = []"
  proof
    assume "contingency_analysis chi2_sf a = Inl ValueError"
    then show "df a = []" using contingency_analysis_ok[of a chi2_sf] by auto
  next
    assume "df a = []"
    then show "contingency_analysis chi2_sf a = Inl ValueError"
      by (rule contingency_analysis_empty)
  qed
next
  assume ne: "df a \<noteq> []"
  from contingency_analysis_ok[OF ne, of chi2_sf]
  obtain R a' where run: "contingency_analysis chi2_sf a = Inr (map (\<lambda>sp. (sp, R sp)) species_list, a')"
    and ok: "\<And>sp. chi2_result_ok chi2_sf (df a) sp (R sp)"
    by blast
  have "map fst (map (\<lambda>sp. (sp, R sp)) species_list) = species_list"
    by (simp add: comp_def)
  moreover have "ct_index (chi2_table res) = sorted_list_of_set (set (map water_body_type (df a))) \<and>
            (\<forall>v. (\<forall>row \<in> set (df a). present sp row = v) \<longrightarrow>
               ct_columns (chi2_table res) = [v] \<and>
               list_all (\<lambda>cells. length cells = 1) (ct_cells (chi2_table res)) \<and>
               chi2_statistic res = 0 \<and> p_value res = 1 \<and> degrees_of_freedom res = 0 \<and>
               \<not> significant res)"
    if "(sp, res) \<in> set (map (\<lambda>sp. (sp, R sp)) species_list)" for sp res
  proof -
    from that have "res = R sp" by auto
    with ok have rok: "chi2_result_ok chi2_sf (df a) sp res" by simp
    then have "ct_index (chi2_table res) = sorted_list_of_set (set (map water_body_type (df a)))"
      by (simp add: chi2_result_ok_def crosstab_shape)
    moreover have "ct_columns (chi2_table res) = [v] \<and>
               list_all (\<lambda>cells. length cells = 1) (ct_cells (chi2_table res)) \<and>
               chi2_statistic res = 0 \<and> p_value res = 1 \<and> degrees_of_freedom res = 0 \<and>
               \<not> significant res" if "\<forall>row \<in> set (df a). present sp row = v" for v
      using chi2_result_uniform[OF ne that rok] .
    ultimately show ?thesis by blast
  qed
  ultimately show "\<exists>results a'. contingency_analysis chi2_sf a = Inr (results, a') \<and>
         map fst results = species_list \<and>
         (\<forall>sp res. (sp, res) \<in> set results \<longrightarrow>
            ct_index (chi2_table res) = sorted_list_of_set (set (map water_body_type (df a))) \<and>
            (\<forall>v. (\<forall>row \<in> set (df a). present sp row = v) \<longrightarrow>
               ct_columns (chi2_table res) = [v] \<and>
               list_all (\<lambda>cells. length cells = 1) (ct_cells (chi2_table res)) \<and>
               chi2_statistic res = 0 \<and> p_value res = 1 \<and> degrees_of_freedom res = 0 \<and>
               \<not> significant res))"
    using run by blast
qed

lemma sample_degenerate_crosstabs:
  "crosstab (map water_body_type sample_degenerate) (map (present RGS) sample_degenerate)
     = \<lparr>ct_index = [''A'', ''B''], ct_columns = [0], ct_cells = [[1], [1]]\<rparr>"
  "crosstab (map water_body_type sample_degenerate) (map (present RES) sample_degenerate)
     = \<lparr>ct_index = [''A'', ''B''], ct_columns = [1], ct_cells = [[1], [1]]\<rparr>"
  "crosstab (map water_body_type sample_degenerate) (map (present PH) sample_degenerate)
     = \<lparr>ct_index = [''A'', ''B''], ct_columns = [0, 1], ct_cells = [[0, 1], [1, 0]]\<rparr>"
  by code_simp+

lemma sample_degenerate_chi2:
  "chi2_contingency chi2_sf \<lparr>ct_index = [''A'', ''B''], ct_columns = [0], ct_cells = [[1], [1]]\<rparr>
     = Inr (0, 1, 0, [[1], [1]])"
  "chi2_contingency chi2_sf \<lparr>ct_index = [''A'', ''B''], ct_columns = [1], ct_cells = [[1], [1]]\<rparr>
     = Inr (0, 1, 0, [[1], [1]])"
  "chi2_contingency chi2_sf
     \<lparr>ct_index = [''A'', ''B''], ct_columns = [0, 1], ct_cells = [[0, 1], [1, 0]]\<rparr>
     = Inr (0, chi2_sf 0 1, 1, [[1 / 2, 1 / 2], [1 / 2, 1 / 2]])"
  by (simp_all add: chi2_contingency_def expected_freq_def row_sums_def col_sums_def pearson_def
      yates_def Let_def upt_rec numeral_2_eq_2)

lemma sample_degenerate_run:
  "contingency_analysis chi2_sf (init_analysis sample_degenerate)
     = Inr (sample_degenerate_results chi2_sf,
            (init_analysis sample_degenerate)
              \<lparr>res_contingency_analysis := Some (sample_degenerate_results chi2_sf)\<rparr>)"
  unfolding contingency_analysis_def species_list_def contingency_loop.simps
    contingency_species_def Let_def
  by (simp add: init_analysis_def sample_degenerate_crosstabs[simplified]
      sample_degenerate_chi2 sample_degenerate_results_def)

text \<open>
  C2 as stated fails. In the two-row sample RGS is absent in every row, RES is present
  in every row and the habitat type \<^verbatim>\<open>Oxbow analog\<close> has no observation; yet
  \<^verbatim>\<open>contingency_analysis\<close> returns results, with statistic 0, p-value 1 and no
  significance for RGS and RES.
\<close>

theorem degenerate_input_returns_result:
  "map water_body_type sample_degenerate = [''B'', ''A''] \<and>
   map RGS_present sample_degenerate = [0, 0] \<and>
   map RES_present sample_degenerate = [1, 1] \<and>
   contingency_analysis exp_sf (init_analysis sample_degenerate)
     = Inr (sample_degenerate_results exp_sf,
            (init_analysis sample_degenerate)
              \<lparr>res_contingency_analysis := Some (sample_degenerate_results exp_sf)\<rparr>) \<and>
   sample_degenerate_results exp_sf =
     [(RGS, \<lparr>chi2_table = \<lparr>ct_index = [''A'', ''B''], ct_columns = [0], ct_cells = [[1], [1]]\<rparr>,
             chi2_statistic = 0, p_value = 1, degrees_of_freedom = 0, significant = False\<rparr>),
      (RES, \<lparr>chi2_table = \<lparr>ct_index = [''A'', ''B''], ct_columns = [1], ct_cells = [[1], [1]]\<rparr>,
             chi2_statistic = 0, p_value = 1, degrees_of_freedom = 0, significant = False\<rparr>),
      (PH, \<lparr>chi2_table = \<lparr>ct_index = [''A'', ''B''], ct_columns = [0, 1],
                            ct_cells = [[0, 1], [1, 0]]\<rparr>,
            chi2_statistic = 0, p_value = 1, degrees_of_freedom = 1, significant = False\<rparr>)]"
  by (simp add: sample_degenerate_run)
    (simp add: sample_degenerate_def mk_row_def sample_degenerate_results_def exp_sf_def)

text \<open>
  The amended statement at a two-row sample in which RGS is absent throughout, and at
  the empty dataset.
\<close>

theorem contingency_fails_only_on_empty_witness:
  "df (init_analysis sample_degenerate) \<noteq> [] \<and>
   list_all (\<lambda>row. present RGS row = 0) (df (init_analysis sample_degenerate)) \<and>
   contingency_analysis exp_sf (init_analysis sample_degenerate) \<noteq> Inl ValueError \<and>
   (\<exists>results a' res.
      contingency_analysis exp_sf (init_analysis sample_degenerate) = Inr (results, a') \<and>
      map fst results = [RGS, RES, PH] \<and>
      (RGS, res) \<in> set results \<and>
      ct_index (chi2_table res) = [''A'', ''B''] \<and>
      ct_columns (chi2_table res) = [0] \<and>
      list_all (\<lambda>cells. length cells = 1) (ct_cells (chi2_table res)) \<and>
      chi2_statistic res = 0 \<and> p_value res = 1 \<and> degrees_of_freedom res = 0 \<and>
      \<not> significant res) \<and>
   df (init_analysis []) = [] \<and>
   contingency_analysis exp_sf (init_analysis []) = Inl ValueError"
proof -
  let ?a = "init_analysis sample_degenerate"
  have d: "df ?a = sample_degenerate" by (simp add: init_analysis_def)
  have ne: "df ?a \<noteq> []" unfolding d by (simp add: sample_degenerate_def)
  have uni: "list_all (\<lambda>row. present RGS row = 0) (df ?a)"
    unfolding d by (simp add: sample_degenerate_def mk_row_def)
  then have uni': "\<forall>row \<in> set (df ?a). present RGS row = 0"
    unfolding list_all_iff by blast
  have e: "df (init_analysis []) = []" by (simp add: init_analysis_def)
  note at_sample = contingency_fails_only_on_empty[of exp_sf ?a]
  note at_empty = contingency_fails_only_on_empty[of exp_sf "init_analysis []"]
  from at_sample ne have nofail: "contingency_analysis exp_sf ?a \<noteq> Inl ValueError" by blast
  from at_empty e have fail: "contingency_analysis exp_sf (init_analysis []) = Inl ValueError"
    by blast
  from at_sample ne obtain results a' where run: "contingency_analysis exp_sf ?a = Inr (results, a')"
    and fst: "map fst results = species_list"
    and all: "\<forall>sp res. (sp, res) \<in> set results \<longrightarrow>
            ct_index (chi2_table res) = sorted_list_of_set (set (map water_body_type (df ?a))) \<and>
            (\<forall>v. (\<forall>row \<in> set (df ?a). present sp row = v) \<longrightarrow>
               ct_columns (chi2_table res) = [v] \<and>
               list_all (\<lambda>cells. length cells = 1) (ct_cells (chi2_table res)) \<and>
               chi2_statistic res = 0 \<and> p_value res = 1 \<and> degrees_of_freedom res = 0 \<and>
               \<not> significant res)"
    by blast
  from fst have "RGS \<in> fst ` set results"
    by (metis list.set_intros(1) set_map species_list_def)
  then obtain res where mem: "(RGS, res) \<in> set results" by force
  have idx: "sorted_list_of_set (set (map water_body_type (df ?a))) = [''A'', ''B'']"
    unfolding d sample_degenerate_def mk_row_def by code_simp
  from all mem uni' have "ct_index (chi2_table res) = [''A'', ''B'']"
    "ct_columns (chi2_table res) = [0]"
    "list_all (\<lambda>cells. length cells = 1) (ct_cells (chi2_table res))"
    "chi2_statistic res = 0" "p_value res = 1" "degrees_of_freedom res = 0" "\<not> significant res"
    unfolding idx[symmetric] by blast+
  with run fst mem have "\<exists>results a' res.
      contingency_analysis exp_sf ?a = Inr (results, a') \<and>
      map fst results = [RGS, RES, PH] \<and>
      (RGS, res) \<in> set results \<and>
      ct_index (chi2_table res) = [''A'', ''B''] \<and>
      ct_columns (chi2_table res) = [0] \<and>
      list_all (\<lambda>cells. length cells = 1) (ct_cells (chi2_table res)) \<and>
      chi2_statistic res = 0 \<and> p_value res = 1 \<and> degrees_of_freedom res = 0 \<and>
      \<not> significant res"
    unfolding species_list_def by (intro exI[of _ results] exI[of _ a'] exI[of _ res]) simp
  with ne uni nofail e fail show ?thesis by simp
qed

end
